theory Spec2Isabelle
  imports Complex_Main "HOL-Library.Word" "HOL-Library.Multiset"
begin

section \<open>JavaScript values as NewOrder.jsx uses them\<close>

text \<open>
  A JavaScript string is a sequence of UTF-16 code units. The catalog's category names
  and the component's messages are Arabic, so code units are kept at their full width.
\<close>

type_synonym jsstring = "16 word list"

text \<open>An ASCII literal as a JavaScript string.\<close>

definition ascii :: "string \<Rightarrow> jsstring" where
  "ascii s = map (\<lambda>c. of_nat (of_char c)) s"

text \<open>
  The code units \<open>String.prototype.trim\<close> strips: ECMAScript's WhiteSpace and
  LineTerminator (TAB, LF, VT, FF, CR, SP, NBSP, U+1680, U+2000..U+200A, U+2028, U+2029,
  U+202F, U+205F, U+3000, U+FEFF). All lie in the basic plane.
\<close>

definition isWhiteSpace :: "16 word \<Rightarrow> bool" where
  "isWhiteSpace c =
     (c = 0x9 \<or> c = 0xA \<or> c = 0xB \<or> c = 0xC \<or> c = 0xD \<or> c = 0x20 \<or> c = 0xA0 \<or>
      c = 0x1680 \<or> (0x2000 \<le> c \<and> c \<le> 0x200A) \<or> c = 0x2028 \<or> c = 0x2029 \<or>
      c = 0x202F \<or> c = 0x205F \<or> c = 0x3000 \<or> c = 0xFEFF)"

definition trim :: "jsstring \<Rightarrow> jsstring" where
  "trim s = rev (dropWhile isWhiteSpace (rev (dropWhile isWhiteSpace s)))"

text \<open>
  A JavaScript number: NaN, the two infinities, or a finite value. A finite double is
  a rational, and \<open><\<close>, \<open><=\<close>, \<open>Number.isInteger\<close> and the sign of a difference
  depend on that rational only, so the finite values are modelled by \<open>rat\<close>
  (every double is one of them; \<open>-0\<close> is identified with \<open>0\<close>, which nothing in
  this file tells apart).
\<close>

datatype jsnum = NaN | PosInf | NegInf | Fin rat

text \<open>\<open>Number.isFinite\<close> and \<open>Number.isInteger\<close> on a number.\<close>

fun isFinite :: "jsnum \<Rightarrow> bool" where
  "isFinite (Fin q) = True"
| "isFinite NaN = False"
| "isFinite PosInf = False"
| "isFinite NegInf = False"

fun isInteger :: "jsnum \<Rightarrow> bool" where
  "isInteger (Fin q) = (of_int \<lfloor>q\<rfloor> = q)"
| "isInteger NaN = False"
| "isInteger PosInf = False"
| "isInteger NegInf = False"

text \<open>The relational operators on numbers: every comparison with NaN is false.\<close>

fun num_lt :: "jsnum \<Rightarrow> jsnum \<Rightarrow> bool" where
  "num_lt NaN b = False"
| "num_lt a NaN = False"
| "num_lt (Fin a) (Fin b) = (a < b)"
| "num_lt (Fin a) PosInf = True"
| "num_lt (Fin a) NegInf = False"
| "num_lt PosInf b = False"
| "num_lt NegInf NegInf = False"
| "num_lt NegInf b = True"

definition num_gt :: "jsnum \<Rightarrow> jsnum \<Rightarrow> bool" where
  "num_gt a b = num_lt b a"

definition num_le :: "jsnum \<Rightarrow> jsnum \<Rightarrow> bool" where
  "num_le a b = (a \<noteq> NaN \<and> b \<noteq> NaN \<and> \<not> num_lt b a)"

definition num_ge :: "jsnum \<Rightarrow> jsnum \<Rightarrow> bool" where
  "num_ge a b = num_le b a"

text \<open>
  The primitive values a catalog row's column, a piece of component state or the
  environment can hold.
\<close>

datatype prim = Undefined | Null | Bool bool | Num jsnum | Str jsstring

text \<open>ToBoolean: what \<open>!v\<close>, \<open>v || w\<close> and \<open>if (v)\<close> test.\<close>

fun truthy :: "prim \<Rightarrow> bool" where
  "truthy Undefined = False"
| "truthy Null = False"
| "truthy (Bool b) = b"
| "truthy (Num NaN) = False"
| "truthy (Num PosInf) = True"
| "truthy (Num NegInf) = True"
| "truthy (Num (Fin q)) = (q \<noteq> 0)"
| "truthy (Str s) = (s \<noteq> [])"

text \<open>
  The engine's own conversions are not code of this repository. Three of them cannot be
  written down from the values alone (they round to a double, print the shortest
  round-trip decimal, or consult the locale), so every function that reaches one takes
  them as the parameter \<open>h\<close> and the theorems hold for every \<open>h\<close>:
  \<^item> \<open>StringToNumber\<close>: \<open>Number(s)\<close> for a string \<open>s\<close>;
  \<^item> \<open>NumberToString\<close>: \<open>String(x)\<close> for a finite \<open>x\<close> that is not an integer
    below \<open>2^53\<close> in magnitude;
  \<^item> \<open>localeCompare\<close>: the sign of \<open>a.localeCompare(b)\<close>, as -1, 0 or 1.
\<close>

record host =
  StringToNumber :: "jsstring \<Rightarrow> jsnum"
  NumberToString :: "rat \<Rightarrow> jsstring"
  localeCompare :: "jsstring \<Rightarrow> jsstring \<Rightarrow> int"

text \<open>\<open>Number(v)\<close>: \<open>undefined\<close> is NaN, \<open>null\<close> is 0, \<open>true\<close> is 1.\<close>

fun toNumber :: "host \<Rightarrow> prim \<Rightarrow> jsnum" where
  "toNumber h Undefined = NaN"
| "toNumber h Null = Fin 0"
| "toNumber h (Bool b) = Fin (if b then 1 else 0)"
| "toNumber h (Num n) = n"
| "toNumber h (Str s) = StringToNumber h s"

text \<open>The decimal digits of a natural number, most significant first.\<close>

fun decimal :: "nat \<Rightarrow> jsstring" where
  "decimal n = (if n < 10 then [of_nat (48 + n)] else decimal (n div 10) @ [of_nat (48 + n mod 10)])"

text \<open>
  \<open>String(x)\<close> for a number. Every integer below \<open>2^53\<close> in magnitude is a double
  of its own, so its shortest digits that read back as it are its decimal digits, with a
  minus sign when negative. From \<open>2^53\<close> on the shortest digits are fewer than the
  exact ones and zeros fill up (\<open>String(2**64)\<close> ends in 552000); that is the host's.
\<close>

fun numberToString :: "host \<Rightarrow> jsnum \<Rightarrow> jsstring" where
  "numberToString h NaN = ascii ''NaN''"
| "numberToString h PosInf = ascii ''Infinity''"
| "numberToString h NegInf = ascii ''-Infinity''"
| "numberToString h (Fin q) =
     (if of_int \<lfloor>q\<rfloor> = q \<and> \<bar>q\<bar> < 2 ^ 53
      then (if q < 0 then ascii ''-'' else []) @ decimal (nat \<bar>\<lfloor>q\<rfloor>\<bar>)
      else NumberToString h q)"

text \<open>\<open>String(v)\<close>.\<close>

fun toString :: "host \<Rightarrow> prim \<Rightarrow> jsstring" where
  "toString h Undefined = ascii ''undefined''"
| "toString h Null = ascii ''null''"
| "toString h (Bool b) = (if b then ascii ''true'' else ascii ''false'')"
| "toString h (Num n) = numberToString h n"
| "toString h (Str s) = s"

declare decimal.simps [simp del]

section \<open>The catalog\<close>

text \<open>
  A row of the \<open>services\<close> table with the columns the component selects (lines 100 to
  109). A column holds a primitive value; \<open>null\<close> where the row has none. The columns
  \<open>id\<close>, \<open>min\<close> and \<open>max\<close> carry the prefix \<open>svc_\<close>.
\<close>

record service =
  svc_id :: prim
  provider_service_id :: prim
  category :: prim
  description :: prim
  provider_rate_per_1000 :: prim
  svc_min :: prim
  svc_max :: prim
  name :: prim

text \<open>Lines 19 to 21.\<close>

fun safeStr :: "prim \<Rightarrow> jsstring" where
  "safeStr (Str s) = s"
| "safeStr Undefined = []"
| "safeStr Null = []"
| "safeStr (Bool b) = []"
| "safeStr (Num n) = []"

text \<open>Lines 23 to 26.\<close>

definition normalizeCategory :: "prim \<Rightarrow> jsstring" where
  "normalizeCategory cat = trim (safeStr cat)"

text \<open>
  Lines 28 to 37. \<open>s.split(" ")[0]\<close> is the part of \<open>s\<close> before its first space (all
  of \<open>s\<close> when it has none), and \<open>length\<close> counts code units.
\<close>

definition extractCategoryBadge :: "prim \<Rightarrow> jsstring" where
  "extractCategoryBadge displayCategory =
     (let s = trim (safeStr displayCategory) in
      if s = [] then []
      else let firstToken = takeWhile (\<lambda>c. c \<noteq> 0x20) s in
        if firstToken \<noteq> [] \<and> length firstToken \<le> 4 then firstToken else [])"

text \<open>Lines 39 to 41.\<close>

definition isPositiveIntLike :: "jsnum \<Rightarrow> bool" where
  "isPositiveIntLike x = (isInteger x \<and> num_ge x (Fin 0))"

text \<open>The entries of the category list (lines 148 to 152).\<close>

record categoryEntry =
  key :: jsstring
  label :: jsstring
  badge :: jsstring

text \<open>
  Lines 140 to 155: the loop over \<open>services\<close>, with the set \<open>seen\<close> and the array
  \<open>out\<close> as accumulators.
\<close>

fun categories_loop :: "service list \<Rightarrow> jsstring set \<Rightarrow> categoryEntry list \<Rightarrow> categoryEntry list" where
  "categories_loop [] seen out = out"
| "categories_loop (s # rest) seen out =
     (let cat = normalizeCategory (category s) in
      if cat = [] then categories_loop rest seen out
      else if cat \<in> seen then categories_loop rest seen out
      else categories_loop rest (insert cat seen)
             (out @ [\<lparr>key = cat, label = cat, badge = extractCategoryBadge (Str cat)\<rparr>]))"

definition categories :: "service list \<Rightarrow> categoryEntry list" where
  "categories services = categories_loop services {} []"

text \<open>
  \<open>Array.prototype.sort\<close> with a comparison function. ECMAScript fixes the result when
  the function is a consistent comparator: the stable sort, which this insertion sort
  computes (an element moves right past those it compares greater than). For any other
  function the order is left to the engine and only the elements are fixed, so the
  theorems below use the order under that hypothesis only.
\<close>

fun sort_insert :: "('a \<Rightarrow> 'a \<Rightarrow> rat) \<Rightarrow> 'a \<Rightarrow> 'a list \<Rightarrow> 'a list" where
  "sort_insert cmp x [] = [x]"
| "sort_insert cmp x (y # ys) = (if cmp x y > 0 then y # sort_insert cmp x ys else x # y # ys)"

fun sort_by :: "('a \<Rightarrow> 'a \<Rightarrow> rat) \<Rightarrow> 'a list \<Rightarrow> 'a list" where
  "sort_by cmp [] = []"
| "sort_by cmp (x # xs) = sort_insert cmp x (sort_by cmp xs)"

text \<open>
  Lines 164 to 169, the comparison function. \<open>av - bv\<close> of two finite doubles has the
  sign of the exact difference, which is all the sort reads.
\<close>

definition compareServices :: "host \<Rightarrow> service \<Rightarrow> service \<Rightarrow> rat" where
  "compareServices h a b =
     (case (toNumber h (provider_service_id a), toNumber h (provider_service_id b)) of
        (Fin av, Fin bv) \<Rightarrow> av - bv
      | _ \<Rightarrow> of_int (localeCompare h (toString h (provider_service_id a))
                                     (toString h (provider_service_id b))))"

text \<open>Lines 158 to 170.\<close>

definition servicesInCategory :: "host \<Rightarrow> service list \<Rightarrow> prim \<Rightarrow> service list" where
  "servicesInCategory h services selectedCategory =
     (let cat = normalizeCategory selectedCategory in
      if cat = [] then []
      else sort_by (compareServices h) (filter (\<lambda>s. normalizeCategory (category s) = cat) services))"

text \<open>
  Lines 173 to 176. A row is an object, hence truthy, so \<open>find(...) || null\<close> is the row
  found or \<open>null\<close>; \<open>None\<close> stands for \<open>null\<close>.
\<close>

definition selectedService :: "host \<Rightarrow> service list \<Rightarrow> prim \<Rightarrow> service option" where
  "selectedService h services selectedServiceId =
     (if \<not> truthy selectedServiceId then None
      else find (\<lambda>s. toString h (provider_service_id s) = toString h selectedServiceId) services)"

section \<open>The component's state\<close>

text \<open>
  The notification \<open>uiMsg\<close>: a type ("" as \<open>NoType\<close>, "info", "error", "success") and a
  text. The texts are Arabic literals and templates; each constructor stands for the
  one literal of the line given, and a template carries the value it inserts.
\<close>

datatype msgType = NoType | Info | Error | Success

text \<open>
  The body of a response once decoded: any JSON value. \<open>optField k j\<close> is \<open>j?.k\<close> for a
  property name \<open>k\<close> that no prototype defines, as \<open>ok\<close> and \<open>message\<close> are: the own
  property of an object, and \<open>undefined\<close> on everything else.
\<close>

datatype json = JPrim prim | JArr "json list" | JObj "(jsstring \<times> json) list"

fun optField :: "jsstring \<Rightarrow> json \<Rightarrow> json" where
  "optField k (JObj kvs) = (case map_of kvs k of Some v \<Rightarrow> v | None \<Rightarrow> JPrim Undefined)"
| "optField k (JArr xs) = JPrim Undefined"
| "optField k (JPrim p) = JPrim Undefined"

fun truthyJson :: "json \<Rightarrow> bool" where
  "truthyJson (JPrim p) = truthy p"
| "truthyJson (JArr xs) = True"
| "truthyJson (JObj kvs) = True"

datatype message =
    NoMessage \<comment> \<open>the empty string: line 78, and line 223 for a selection that passes\<close>
  | CategoryPicked prim \<comment> \<open>line 200, with \<open>catKey\<close>\<close>
  | ServicePicked prim \<comment> \<open>line 205, with \<open>providerServiceId\<close>\<close>
  | ChooseCategory \<comment> \<open>line 209: choose a category first\<close>
  | ChooseService \<comment> \<open>line 210: choose a service first\<close>
  | EnterLink \<comment> \<open>line 212: enter the link\<close>
  | ConfirmRead \<comment> \<open>line 213: confirm that you read the description\<close>
  | QuantityWhole \<comment> \<open>line 214: the quantity must be a whole number, 0 or more\<close>
  | QuantityPositive \<comment> \<open>line 215: the quantity must be greater than 0\<close>
  | MinQuantity jsnum \<comment> \<open>line 220, with \<open>min\<close>: the least quantity of this service\<close>
  | MaxQuantity jsnum \<comment> \<open>line 221, with \<open>max\<close>: the greatest quantity of this service\<close>
  | Creating \<comment> \<open>line 243: creating the order\<close>
  | ApiBaseMissing \<comment> \<open>line 246: VITE_API_BASE is not in the environment\<close>
  | SignInFirst \<comment> \<open>line 254: you must sign in first\<close>
  | ServerMessage json \<comment> \<open>line 271: \<open>json.message\<close> itself\<close>
  | OrderFailed \<comment> \<open>line 271: creating the order failed, check link, quantity and service\<close>
  | OrderCreated \<comment> \<open>line 276: the order was created\<close>
  | NetworkError prim \<comment> \<open>line 282, with \<open>e?.message\<close>: network error\<close>

record uiMessage =
  msg_type :: msgType
  msg_text :: message

text \<open>
  The state of \<open>NewOrder\<close> (lines 69 to 78) once the catalog has loaded. \<open>quantity\<close> is
  only ever set to a number (lines 75, 183, 279, 465).
\<close>

record component =
  services :: "service list"
  selectedCategory :: prim
  selectedServiceId :: prim
  link :: prim
  quantity :: jsnum
  readDesc :: bool
  uiMsg :: uiMessage

text \<open>The effect of lines 179 to 184 and the effect of lines 187 to 189.\<close>

definition categoryEffect :: "component \<Rightarrow> component" where
  "categoryEffect st = st\<lparr>selectedServiceId := Null, readDesc := False, link := Str [], quantity := Fin 0\<rparr>"

definition serviceEffect :: "component \<Rightarrow> component" where
  "serviceEffect st = st\<lparr>readDesc := False\<rparr>"

text \<open>
  After a render React runs the effects whose dependency differs from the one of the
  render before (\<open>prev\<close>), in the order of the source, and applies their state updates
  together.
\<close>

definition runEffects :: "component \<Rightarrow> component \<Rightarrow> component" where
  "runEffects prev cur =
     (let s1 = (if selectedCategory cur = selectedCategory prev then cur else categoryEffect cur)
      in if selectedServiceId cur = selectedServiceId prev then s1 else serviceEffect s1)"

text \<open>
  Rendering until no dependency changes: the state an event leaves behind, from the
  state rendered before it (\<open>prev\<close>) and the state its handler set (\<open>cur\<close>).
\<close>

function settle :: "component \<Rightarrow> component \<Rightarrow> component" where
  "settle prev cur =
     (if selectedCategory cur = selectedCategory prev \<and> selectedServiceId cur = selectedServiceId prev
      then cur
      else settle cur (runEffects prev cur))"
  by pat_completeness auto
termination
  by (relation "measure (\<lambda>(prev, cur).
        if selectedCategory cur \<noteq> selectedCategory prev then 2
        else if selectedServiceId cur \<noteq> selectedServiceId prev then 1 else 0)")
     (auto simp: runEffects_def categoryEffect_def serviceEffect_def Let_def)

declare settle.simps [simp del]

text \<open>Lines 191 to 196, without the timer that blanks the notification later.\<close>

definition showMsg :: "msgType \<Rightarrow> message \<Rightarrow> component \<Rightarrow> component" where
  "showMsg t x st = st\<lparr>uiMsg := \<lparr>msg_type = t, msg_text = x\<rparr>\<rparr>"

text \<open>Lines 198 to 201 and lines 203 to 206: the handlers.\<close>

definition onPickCategory :: "prim \<Rightarrow> component \<Rightarrow> component" where
  "onPickCategory catKey st = showMsg Info (CategoryPicked catKey) (st\<lparr>selectedCategory := catKey\<rparr>)"

definition onPickService :: "prim \<Rightarrow> component \<Rightarrow> component" where
  "onPickService providerServiceId st =
     showMsg Info (ServicePicked providerServiceId) (st\<lparr>selectedServiceId := providerServiceId\<rparr>)"

text \<open>A click on a category card or on a service: the handler, then the renders.\<close>

definition pickCategory :: "prim \<Rightarrow> component \<Rightarrow> component" where
  "pickCategory catKey st = settle st (onPickCategory catKey st)"

definition pickService :: "prim \<Rightarrow> component \<Rightarrow> component" where
  "pickService providerServiceId st = settle st (onPickService providerServiceId st)"

section \<open>Validation and submission\<close>

text \<open>Lines 208 to 224.\<close>

definition validateBeforeSubmit :: "host \<Rightarrow> component \<Rightarrow> message" where
  "validateBeforeSubmit h st =
     (if \<not> truthy (selectedCategory st) then ChooseCategory
      else case selectedService h (services st) (selectedServiceId st) of
        None \<Rightarrow> ChooseService
      | Some svc \<Rightarrow>
          let trimmedLink = trim (safeStr (link st)) in
          if trimmedLink = [] then EnterLink
          else if \<not> readDesc st then ConfirmRead
          else if \<not> isPositiveIntLike (quantity st) then QuantityWhole
          else if num_le (quantity st) (Fin 0) then QuantityPositive
          else
            let mn = toNumber h (svc_min svc);
                mx = toNumber h (svc_max svc) in
            if isFinite mn \<and> num_lt (quantity st) mn then MinQuantity mn
            else if isFinite mx \<and> num_gt (quantity st) mx then MaxQuantity mx
            else NoMessage)"

text \<open>
  What one call of \<open>createOrder\<close> meets outside the component: the configured base, the
  session provider and the endpoint. An awaited call either rejects (\<open>Rejected\<close>, with
  \<open>e?.message\<close> of what it threw) or is fulfilled. \<open>getSession\<close> is fulfilled with the
  value of \<open>sessionData?.session?.access_token\<close>; a response has \<open>res.ok\<close> and the JSON
  of its body, \<open>None\<close> when \<open>res.json()\<close> rejects.
\<close>

datatype 'a settled = Rejected prim | Fulfilled 'a

record response =
  res_ok :: bool
  res_json :: "json option"

record request =
  req_base :: prim
  req_token :: prim
  req_provider_service_id :: jsnum
  req_link :: jsstring
  req_quantity :: jsnum

record environment =
  VITE_API_BASE :: prim
  getSession :: "prim settled"
  fetch :: "request \<Rightarrow> response settled"

text \<open>
  What the call leaves: the state, the notifications it showed in order, and the
  requests it sent to the endpoint.
\<close>

record outcome =
  after :: component
  shown :: "uiMessage list"
  sent :: "request list"

text \<open>
  The outcome of a call that showed the notifications \<open>ms\<close> and sent \<open>reqs\<close>: the
  single slot \<open>uiMsg\<close> holds the last notification shown.
\<close>

definition finish :: "component \<Rightarrow> uiMessage list \<Rightarrow> request list \<Rightarrow> outcome" where
  "finish st ms reqs =
     \<lparr>after = (case ms of [] \<Rightarrow> st | _ \<Rightarrow> st\<lparr>uiMsg := last ms\<rparr>), shown = ms, sent = reqs\<rparr>"

text \<open>
  The request of lines 258 to 265 with the payload of lines 236 to 240; \<open>quantity\<close> is
  a number already, so \<open>Number(quantity)\<close> is \<open>quantity\<close>.
\<close>

definition orderRequest :: "host \<Rightarrow> prim \<Rightarrow> prim \<Rightarrow> service \<Rightarrow> component \<Rightarrow> request" where
  "orderRequest h apiBase token svc st =
     \<lparr>req_base = apiBase, req_token = token,
      req_provider_service_id = toNumber h (provider_service_id svc),
      req_link = trim (safeStr (link st)),
      req_quantity = quantity st\<rparr>"

text \<open>Line 267: a body that does not parse counts as the empty object.\<close>

definition decodedBody :: "response \<Rightarrow> json" where
  "decodedBody res = (case res_json res of None \<Rightarrow> JObj [] | Some j \<Rightarrow> j)"

text \<open>
  Lines 226 to 284. \<open>if (err)\<close> tests for the empty string, every literal and template
  being non-empty. With no active service line 237 would throw outside the \<open>try\<close>; the
  validator has returned by then (line 210).
\<close>

definition createOrder :: "host \<Rightarrow> environment \<Rightarrow> component \<Rightarrow> outcome" where
  "createOrder h env st =
     (let err = validateBeforeSubmit h st in
      if err \<noteq> NoMessage then finish st [\<lparr>msg_type = Error, msg_text = err\<rparr>] []
      else case selectedService h (services st) (selectedServiceId st) of
        None \<Rightarrow> finish st [] []
      | Some svc \<Rightarrow>
          (let creating = \<lparr>msg_type = Info, msg_text = Creating\<rparr>;
               apiBase = VITE_API_BASE env in
           if \<not> truthy apiBase then finish st [creating, \<lparr>msg_type = Error, msg_text = ApiBaseMissing\<rparr>] []
           else
            (case getSession env of
               Rejected e \<Rightarrow> finish st [creating, \<lparr>msg_type = Error, msg_text = NetworkError e\<rparr>] []
             | Fulfilled token \<Rightarrow>
                 if \<not> truthy token then finish st [creating, \<lparr>msg_type = Error, msg_text = SignInFirst\<rparr>] []
                 else
                  (let req = orderRequest h apiBase token svc st in
                   (case fetch env req of
                      Rejected e \<Rightarrow> finish st [creating, \<lparr>msg_type = Error, msg_text = NetworkError e\<rparr>] [req]
                    | Fulfilled res \<Rightarrow>
                       (let body = decodedBody res in
                        if res_ok res \<and> truthyJson (optField (ascii ''ok'') body)
                        then finish (st\<lparr>link := Str [], quantity := Fin 0, readDesc := False\<rparr>)
                               [creating, \<lparr>msg_type = Success, msg_text = OrderCreated\<rparr>] [req]
                        else
                         (let msg = (if truthyJson (optField (ascii ''message'') body)
                                     then ServerMessage (optField (ascii ''message'') body)
                                     else OrderFailed) in
                          finish st [creating, \<lparr>msg_type = Error, msg_text = msg\<rparr>] [req])))))))"

text \<open>The call classified the outcome as a success: it showed the notification of line 276.\<close>

definition succeeded :: "host \<Rightarrow> environment \<Rightarrow> component \<Rightarrow> bool" where
  "succeeded h env st = (\<lparr>msg_type = Success, msg_text = OrderCreated\<rparr> \<in> set (shown (createOrder h env st)))"

text \<open>The state of lines 69 to 78, with the catalog loaded.\<close>

definition initialState :: "service list \<Rightarrow> component" where
  "initialState svcs =
     \<lparr>services = svcs, selectedCategory = Str [], selectedServiceId = Null, link = Str [],
      quantity = Fin 0, readDesc = False, uiMsg = \<lparr>msg_type = NoType, msg_text = NoMessage\<rparr>\<rparr>"

section \<open>The specification's notions\<close>

text \<open>
  The bound a service declares, in the specification's words "a finite bound": the
  column holds a finite number, or a string that spells one. \<open>null\<close>, \<open>undefined\<close>, a
  boolean, a blank string and a non-finite number declare no bound. This reads the
  column's value, not what \<open>Number\<close> makes of it.
\<close>

fun declaredBound :: "host \<Rightarrow> prim \<Rightarrow> rat option" where
  "declaredBound h (Num (Fin q)) = Some q"
| "declaredBound h (Num NaN) = None"
| "declaredBound h (Num PosInf) = None"
| "declaredBound h (Num NegInf) = None"
| "declaredBound h (Str s) =
     (if trim s = [] then None
      else case StringToNumber h s of Fin q \<Rightarrow> Some q | NaN \<Rightarrow> None | PosInf \<Rightarrow> None | NegInf \<Rightarrow> None)"
| "declaredBound h Undefined = None"
| "declaredBound h Null = None"
| "declaredBound h (Bool b) = None"

text \<open>
  The eight rules of the validator as the specification words them, each with the
  message it gives when violated: (1) the category is non-empty, (2) an active service
  is resolvable, (3) the trimmed link is non-empty, (4) the description is acknowledged,
  (5) the quantity is a non-negative integer, (6) the quantity is greater than 0,
  (7) the quantity is at least \<open>min\<close> when the service declares a finite \<open>min\<close>,
  (8) the quantity is at most \<open>max\<close> when the service declares a finite \<open>max\<close>.
\<close>

definition violated :: "bool \<Rightarrow> message \<Rightarrow> message option" where
  "violated b m = (if b then Some m else None)"

definition rules :: "host \<Rightarrow> component \<Rightarrow> message option list" where
  "rules h st =
     (let svc = selectedService h (services st) (selectedServiceId st);
          q = quantity st in
      [violated (\<not> truthy (selectedCategory st)) ChooseCategory,
       violated (svc = None) ChooseService,
       violated (trim (safeStr (link st)) = []) EnterLink,
       violated (\<not> readDesc st) ConfirmRead,
       violated (\<not> (isInteger q \<and> num_ge q (Fin 0))) QuantityWhole,
       violated (\<not> num_gt q (Fin 0)) QuantityPositive,
       (case svc of None \<Rightarrow> None
        | Some s \<Rightarrow>
           (case declaredBound h (svc_min s) of None \<Rightarrow> None
            | Some mn \<Rightarrow> violated (\<not> num_ge q (Fin mn)) (MinQuantity (Fin mn)))),
       (case svc of None \<Rightarrow> None
        | Some s \<Rightarrow>
           (case declaredBound h (svc_max s) of None \<Rightarrow> None
            | Some mx \<Rightarrow> violated (\<not> num_le q (Fin mx)) (MaxQuantity (Fin mx))))])"

text \<open>
  \<open>Number\<close> agrees with the declaration of a bound: it gives the declared number, and
  no finite number where none is declared.
\<close>

definition coercionAgrees :: "host \<Rightarrow> prim \<Rightarrow> bool" where
  "coercionAgrees h v =
     (case declaredBound h v of
        Some m \<Rightarrow> toNumber h v = Fin m
      | None \<Rightarrow> \<not> isFinite (toNumber h v))"

text \<open>The five fields of the selection are the same in two states.\<close>

definition sameSelection :: "component \<Rightarrow> component \<Rightarrow> bool" where
  "sameSelection a b =
     (selectedCategory b = selectedCategory a \<and> selectedServiceId b = selectedServiceId a \<and>
      link b = link a \<and> quantity b = quantity a \<and> readDesc b = readDesc a)"

text \<open>Rule \<open>n\<close> of the eight, counted from 1.\<close>

definition rule :: "nat \<Rightarrow> host \<Rightarrow> component \<Rightarrow> message option" where
  "rule n h st = rules h st ! (n - 1)"

text \<open>The message of the first violated rule of a list, the empty string when none is.\<close>

fun firstViolation :: "message option list \<Rightarrow> message" where
  "firstViolation [] = NoMessage"
| "firstViolation (None # rs) = firstViolation rs"
| "firstViolation (Some m # rs) = m"

text \<open>The elements of a list in the order of their first occurrence, each once.\<close>

fun firstOccurrences :: "'a list \<Rightarrow> 'a list" where
  "firstOccurrences [] = []"
| "firstOccurrences (x # xs) = x # firstOccurrences (filter (\<lambda>y. y \<noteq> x) xs)"

text \<open>The first record of the catalog in a category, by its normalized key.\<close>

definition firstRecord :: "service list \<Rightarrow> jsstring \<Rightarrow> service option" where
  "firstRecord svcs k = find (\<lambda>s. normalizeCategory (category s) = k) svcs"

text \<open>The position of the first record of the catalog in a category.\<close>

definition firstIndex :: "service list \<Rightarrow> jsstring \<Rightarrow> nat" where
  "firstIndex svcs k = length (takeWhile (\<lambda>s. normalizeCategory (category s) \<noteq> k) svcs)"

text \<open>
  A comparison function is a consistent comparator on a set of elements, as far as the
  sort needs it: comparing greater one way is comparing not greater the other way, and
  "not greater" is transitive.
\<close>

definition consistentOn :: "('a \<Rightarrow> 'a \<Rightarrow> rat) \<Rightarrow> 'a set \<Rightarrow> bool" where
  "consistentOn cmp M =
     ((\<forall>a\<in>M. \<forall>b\<in>M. cmp a b > 0 \<longrightarrow> cmp b a \<le> 0) \<and>
      (\<forall>a\<in>M. \<forall>b\<in>M. \<forall>c\<in>M. cmp a b \<le> 0 \<longrightarrow> cmp b c \<le> 0 \<longrightarrow> cmp a c \<le> 0))"

section \<open>Sample values\<close>

text \<open>
  A host to run the model on sample inputs. Its \<open>StringToNumber\<close> reads the empty
  string and strings of decimal digits (whitespace around them trimmed) and answers NaN
  on every other string; its \<open>localeCompare\<close> compares code unit by code unit. Both
  agree with a JavaScript engine on the strings of the samples below: digit strings
  below \<open>2^53\<close>, and ASCII digits and lower-case letters. No sample prints a fraction.
\<close>

definition isDigit :: "16 word \<Rightarrow> bool" where
  "isDigit c = (0x30 \<le> c \<and> c \<le> 0x39)"

definition sampleStringToNumber :: "jsstring \<Rightarrow> jsnum" where
  "sampleStringToNumber s =
     (let t = trim s in
      if t = [] then Fin 0
      else if list_all isDigit t then Fin (of_nat (foldl (\<lambda>acc c. 10 * acc + (unat c - 48)) 0 t))
      else NaN)"

fun sampleCompare :: "jsstring \<Rightarrow> jsstring \<Rightarrow> int" where
  "sampleCompare [] [] = 0"
| "sampleCompare [] (y # ys) = - 1"
| "sampleCompare (x # xs) [] = 1"
| "sampleCompare (x # xs) (y # ys) = (if x < y then - 1 else if y < x then 1 else sampleCompare xs ys)"

definition sampleHost :: host where
  "sampleHost = \<lparr>StringToNumber = sampleStringToNumber, NumberToString = (\<lambda>q. []),
                 localeCompare = sampleCompare\<rparr>"

text \<open>A catalog row from its identifier, category, \<open>min\<close> and \<open>max\<close>; the other columns null.\<close>

definition row :: "prim \<Rightarrow> prim \<Rightarrow> prim \<Rightarrow> prim \<Rightarrow> service" where
  "row i c mn mx =
     \<lparr>svc_id = Null, provider_service_id = i, category = c, description = Null,
      provider_rate_per_1000 = Null, svc_min = mn, svc_max = mx, name = Null\<rparr>"

text \<open>
  A selection that passes rules 1 to 6 on a one-row catalog: category \<open>A\<close>, service
  \<open>7\<close>, a link, the acknowledgement and a quantity.
\<close>

definition filled :: "prim \<Rightarrow> prim \<Rightarrow> jsnum \<Rightarrow> component" where
  "filled mn mx q =
     (initialState [row (Num (Fin 7)) (Str (ascii ''A'')) mn mx])
       \<lparr>selectedCategory := Str (ascii ''A''), selectedServiceId := Str (ascii ''7''),
        link := Str (ascii ''x.io''), quantity := q, readDesc := True\<rparr>"

text \<open>
  An environment with a base, a session answer and one answer of the endpoint to
  whatever is sent; and the base, the token and the bodies of the samples.
\<close>

definition sampleEnv :: "prim \<Rightarrow> prim settled \<Rightarrow> response settled \<Rightarrow> environment" where
  "sampleEnv base session answer = \<lparr>VITE_API_BASE = base, getSession = session, fetch = (\<lambda>r. answer)\<rparr>"

definition sampleBase :: prim where
  "sampleBase = Str (ascii ''https://api'')"

definition sampleToken :: prim where
  "sampleToken = Str (ascii ''tok'')"

definition okBody :: json where
  "okBody = JObj [(ascii ''ok'', JPrim (Bool True))]"

definition badLinkBody :: json where
  "badLinkBody = JObj [(ascii ''ok'', JPrim (Bool False)), (ascii ''message'', JPrim (Str (ascii ''bad link'')))]"

definition emptyMessageBody :: json where
  "emptyMessageBody = JObj [(ascii ''ok'', JPrim (Bool False)), (ascii ''message'', JPrim (Str []))]"

text \<open>
  A catalog with a category written with and without whitespace around it, a second
  category, a row without category, and a numeric string among the identifiers.
\<close>

definition mixedCatalog :: "service list" where
  "mixedCatalog =
     [row (Num (Fin 12)) (Str (ascii ''A'')) Null Null,
      row (Num (Fin 3)) (Str (ascii ''B'')) Null Null,
      row (Str (ascii ''7'')) (Str (ascii '' A '')) Null Null,
      row (Num (Fin 5)) Null Null Null]"

text \<open>
  A catalog in ascending order of its identifiers, as the query of line 115 returns it,
  and that order on identifiers that are numbers.
\<close>

definition sortedCatalog :: "service list" where
  "sortedCatalog =
     [row (Num (Fin 1)) (Str (ascii '' A '')) Null Null,
      row (Num (Fin 2)) (Str (ascii ''B'')) Null Null,
      row (Num (Fin 3)) (Str (ascii ''A'')) Null Null,
      row (Num (Fin 4)) Null Null Null,
      row (Num (Fin 5)) (Str (ascii ''B'')) Null Null]"

definition numericOrder :: "prim \<Rightarrow> prim \<Rightarrow> bool" where
  "numericOrder a b = num_le (toNumber sampleHost a) (toNumber sampleHost b)"

text \<open>The two answers of the endpoint and the environment in which nothing fails.\<close>

definition okAnswer :: "response settled" where
  "okAnswer = Fulfilled \<lparr>res_ok = True, res_json = Some okBody\<rparr>"

definition badLinkAnswer :: "response settled" where
  "badLinkAnswer = Fulfilled \<lparr>res_ok = False, res_json = Some badLinkBody\<rparr>"

definition goodEnv :: environment where
  "goodEnv = sampleEnv sampleBase (Fulfilled sampleToken) okAnswer"

section \<open>The validator\<close>

lemma num_simps:
  "num_le (Fin a) (Fin b) = (a \<le> b)"
  "num_ge (Fin a) (Fin b) = (b \<le> a)"
  "num_gt (Fin a) (Fin b) = (b < a)"
  by (auto simp: num_le_def num_ge_def num_gt_def)

lemma firstViolation_violated [simp]:
  "firstViolation (violated b m # rs) = (if b then m else firstViolation rs)"
  by (simp add: violated_def)

text \<open>
  Where \<open>Number\<close> agrees with the declaration of a bound: everywhere but on \<open>null\<close>, on
  a boolean, and on a blank string that it reads as a finite number (0, in an engine).
\<close>

lemma coercionAgrees_iff:
  "coercionAgrees h v \<longleftrightarrow>
     v \<noteq> Null \<and> (\<forall>b. v \<noteq> Bool b) \<and> (\<forall>s. v = Str s \<and> trim s = [] \<longrightarrow> \<not> isFinite (StringToNumber h s))"
proof (cases v)
  case (Num n)
  then show ?thesis by (cases n) (simp_all add: coercionAgrees_def)
next
  case (Str s)
  then show ?thesis
    by (cases "StringToNumber h s") (simp_all add: coercionAgrees_def)
qed (simp_all add: coercionAgrees_def)

lemma coercionAgrees_cases:
  assumes "coercionAgrees h v"
  obtains m where "declaredBound h v = Some m" "toNumber h v = Fin m"
  | "declaredBound h v = None" "\<not> isFinite (toNumber h v)"
  using assms by (auto simp: coercionAgrees_def split: option.splits)

text \<open>
  On a selection whose active service has bounds that \<open>Number\<close> reads as declared, the
  validator returns the message of the first rule, in the order 1 to 8, that the
  selection violates, and the empty string when it violates none.
\<close>

lemma validate_refines:
  assumes "\<And>svc. selectedService h (services st) (selectedServiceId st) = Some svc \<Longrightarrow>
             coercionAgrees h (svc_min svc) \<and> coercionAgrees h (svc_max svc)"
  shows "validateBeforeSubmit h st = firstViolation (rules h st)"
proof (cases "selectedService h (services st) (selectedServiceId st)")
  case None
  then show ?thesis
    by (simp add: validateBeforeSubmit_def rules_def Let_def)
next
  case (Some svc)
  with assms have ag: "coercionAgrees h (svc_min svc)" "coercionAgrees h (svc_max svc)"
    by simp_all
  show ?thesis
  proof (cases "quantity st")
    case (Fin q)
    from ag(1) show ?thesis
    proof (cases rule: coercionAgrees_cases)
      case (1 mn)
      from ag(2) show ?thesis
      proof (cases rule: coercionAgrees_cases)
        case mx: (1 mx)
        with 1 Some Fin show ?thesis
          by (auto simp: validateBeforeSubmit_def rules_def Let_def isPositiveIntLike_def num_simps)
      next
        case mx: 2
        with 1 Some Fin show ?thesis
          by (auto simp: validateBeforeSubmit_def rules_def Let_def isPositiveIntLike_def num_simps)
      qed
    next
      case 2
      from ag(2) show ?thesis
      proof (cases rule: coercionAgrees_cases)
        case mx: (1 mx)
        with 2 Some Fin show ?thesis
          by (auto simp: validateBeforeSubmit_def rules_def Let_def isPositiveIntLike_def num_simps)
      next
        case mx: 2
        with 2 Some Fin show ?thesis
          by (auto simp: validateBeforeSubmit_def rules_def Let_def isPositiveIntLike_def num_simps)
      qed
    qed
  qed (use Some in \<open>auto simp: validateBeforeSubmit_def rules_def Let_def isPositiveIntLike_def
        num_le_def num_ge_def num_gt_def\<close>)
qed

text \<open>
  The link rule comes before the quantity rule: with rule 3 violated the message is
  never rule 6's, and it is rule 3's when rules 1 and 2 are satisfied.
\<close>

lemma link_message_first:
  "rule 3 h st \<noteq> None \<Longrightarrow>
   validateBeforeSubmit h st \<noteq> QuantityPositive \<and>
   (rule 1 h st = None \<and> rule 2 h st = None \<longrightarrow> validateBeforeSubmit h st = EnterLink)"
proof (intro conjI impI)
  assume "rule 3 h st \<noteq> None"
  then have l: "trim (safeStr (link st)) = []"
    by (simp add: rule_def rules_def Let_def violated_def split: if_splits)
  then show "validateBeforeSubmit h st \<noteq> QuantityPositive"
    by (simp add: validateBeforeSubmit_def split: option.splits)
  assume "rule 1 h st = None \<and> rule 2 h st = None"
  then have "truthy (selectedCategory st)"
    "selectedService h (services st) (selectedServiceId st) \<noteq> None"
    by (simp_all add: rule_def rules_def Let_def violated_def split: if_splits)
  with l show "validateBeforeSubmit h st = EnterLink"
    by (auto simp: validateBeforeSubmit_def split: option.splits)
qed

text \<open>
  C1. The claim: for every selection the validator returns the message of the first
  violated rule of the eight and no other, rule 8 being that the quantity is at most
  \<open>max\<close> when \<open>max\<close> is a finite bound. The code, on the filled selection with quantity
  5 and a service whose \<open>min\<close> and \<open>max\<close> are \<open>null\<close>: none of the eight rules is
  violated, and the validator returns the maximum message, with 0.
\<close>

theorem unviolated_rules_rejected:
  "rules sampleHost (filled Null Null (Fin 5)) = [None, None, None, None, None, None, None, None] \<and>
   validateBeforeSubmit sampleHost (filled Null Null (Fin 5)) = MaxQuantity (Fin 0)"
proof -
  have sel: "selectedService sampleHost (services (filled Null Null (Fin 5)))
               (selectedServiceId (filled Null Null (Fin 5))) =
             Some (row (Num (Fin 7)) (Str (ascii ''A'')) Null Null)"
    by (simp add: filled_def initialState_def row_def selectedService_def ascii_def decimal.simps)
  have "rules sampleHost (filled Null Null (Fin 5)) = [None, None, None, None, None, None, None, None]"
    by (simp add: rules_def Let_def sel)
       (simp add: violated_def filled_def row_def trim_def ascii_def isWhiteSpace_def num_simps)
  moreover have "validateBeforeSubmit sampleHost (filled Null Null (Fin 5)) = MaxQuantity (Fin 0)"
    by (simp add: validateBeforeSubmit_def sel)
       (simp add: filled_def row_def trim_def ascii_def isWhiteSpace_def isPositiveIntLike_def num_simps)
  ultimately show ?thesis by simp
qed

subsection \<open>The optional bounds\<close>

text \<open>
  A selection that passes rules 1 to 6 has an active service and a positive finite
  quantity, and the validator's answer is that of the two bound checks.
\<close>

lemma passes_first_six:
  assumes "firstViolation (take 6 (rules h st)) = NoMessage"
  shows "\<exists>svc q. selectedService h (services st) (selectedServiceId st) = Some svc \<and>
           quantity st = Fin q \<and> 0 < q \<and>
           validateBeforeSubmit h st =
             (let mn = toNumber h (svc_min svc); mx = toNumber h (svc_max svc) in
              if isFinite mn \<and> num_lt (Fin q) mn then MinQuantity mn
              else if isFinite mx \<and> num_gt (Fin q) mx then MaxQuantity mx
              else NoMessage)"
proof (cases "selectedService h (services st) (selectedServiceId st)")
  case None
  with assms show ?thesis
    by (simp add: rules_def Let_def split: if_splits)
next
  case (Some svc)
  show ?thesis
  proof (cases "quantity st")
    case (Fin q)
    with assms Some show ?thesis
      by (simp add: rules_def Let_def validateBeforeSubmit_def isPositiveIntLike_def num_simps split: if_splits)
  qed (use assms Some in \<open>simp_all add: rules_def Let_def split: if_splits\<close>)
qed

text \<open>
  Rules 7 and 8 are off when \<open>Number(min)\<close> and \<open>Number(max)\<close> are not finite, as for
  \<open>undefined\<close> and for a string that \<open>Number\<close> reads as NaN.
\<close>

lemma bounds_disabled:
  assumes "firstViolation (take 6 (rules h st)) = NoMessage"
    and "selectedService h (services st) (selectedServiceId st) = Some svc"
    and "\<not> isFinite (toNumber h (svc_min svc))" and "\<not> isFinite (toNumber h (svc_max svc))"
  shows "validateBeforeSubmit h st = NoMessage"
  using passes_first_six [OF assms(1)] assms(2-) by (auto simp: Let_def)

text \<open>
  \<open>Number(null)\<close> is 0, which is finite: a service whose \<open>max\<close> column is \<open>null\<close>
  accepts no quantity at all.
\<close>

lemma null_max_never_passes:
  assumes "selectedService h (services st) (selectedServiceId st) = Some svc"
    and "svc_max svc = Null"
  shows "validateBeforeSubmit h st \<noteq> NoMessage"
proof (cases "quantity st")
  case (Fin q)
  with assms show ?thesis
    by (auto simp: validateBeforeSubmit_def Let_def isPositiveIntLike_def num_simps)
qed (use assms in \<open>auto simp: validateBeforeSubmit_def Let_def isPositiveIntLike_def\<close>)

text \<open>
  C2. The claim: rules 7 and 8 are off for a service that declares no finite bound,
  whatever the absent bound holds, \<open>null\<close> included; with \<open>min\<close> 10 and no \<open>max\<close>,
  quantity 5 fails with the minimum message and quantity 10 passes. The code, on a
  selection that passes rules 1 to 6: with both bounds \<open>null\<close> quantity 5 is refused
  with "the greatest quantity is 0"; with \<open>min\<close> 10 and \<open>max\<close> \<open>null\<close> quantity 10 is
  refused the same way, and quantity 5 gets the minimum message.
\<close>

theorem null_bounds_reject:
  "validateBeforeSubmit sampleHost (filled Null Null (Fin 5)) = MaxQuantity (Fin 0) \<and>
   validateBeforeSubmit sampleHost (filled (Num (Fin 10)) Null (Fin 10)) = MaxQuantity (Fin 0) \<and>
   validateBeforeSubmit sampleHost (filled (Num (Fin 10)) Null (Fin 5)) = MinQuantity (Fin 10)"
  by (simp add: validateBeforeSubmit_def filled_def initialState_def row_def selectedService_def
      trim_def ascii_def isWhiteSpace_def isPositiveIntLike_def num_simps decimal.simps)

section \<open>The category list\<close>

lemma categories_loop_label:
  "list_all (\<lambda>e. label e = key e) out \<Longrightarrow>
   list_all (\<lambda>e. label e = key e) (categories_loop svcs seen out)"
  by (induction svcs arbitrary: seen out) (simp_all add: Let_def)

text \<open>Every entry's label is its key: line 150 stores the trimmed string.\<close>

lemma label_is_key: "e \<in> set (categories svcs) \<Longrightarrow> label e = key e"
  using categories_loop_label [of "[]" svcs "{}"] by (simp add: categories_def list_all_iff)

text \<open>
  C4. The claim: the entry of a category seen for the first time carries the record's
  original, untrimmed category as its label and the trimmed one as its key, so the two
  differ when the category has whitespace around it. The code, on one record of category
  " A ": the label is "A", the same as the key.
\<close>

theorem trimmed_label:
  "categories [row (Num (Fin 1)) (Str (ascii '' A '')) Null Null] =
     [\<lparr>key = ascii ''A'', label = ascii ''A'', badge = ascii ''A''\<rparr>]"
  by (simp add: categories_def row_def normalizeCategory_def trim_def ascii_def isWhiteSpace_def
      extractCategoryBadge_def Let_def)

section \<open>Cascade resets\<close>

text \<open>
  The renders after an event: nothing more happens when no dependency changed; a new
  service runs the second effect once; a new category runs the first effect, and the
  second in the same or in the next render.
\<close>

lemma settle_same:
  "selectedCategory cur = selectedCategory prev \<Longrightarrow> selectedServiceId cur = selectedServiceId prev \<Longrightarrow>
   settle prev cur = cur"
  by (subst settle.simps) simp

lemma settle_service_change:
  assumes "selectedCategory cur = selectedCategory prev" "selectedServiceId cur \<noteq> selectedServiceId prev"
  shows "settle prev cur = cur\<lparr>readDesc := False\<rparr>"
proof -
  have "settle prev cur = settle cur (serviceEffect cur)"
    using assms by (subst settle.simps) (simp add: runEffects_def)
  also have "\<dots> = serviceEffect cur"
    by (rule settle_same) (simp_all add: serviceEffect_def)
  finally show ?thesis by (simp add: serviceEffect_def)
qed

lemma settle_category_change:
  assumes "selectedCategory cur \<noteq> selectedCategory prev"
  shows "settle prev cur = cur\<lparr>selectedServiceId := Null, readDesc := False, link := Str [], quantity := Fin 0\<rparr>"
proof -
  let ?nxt = "cur\<lparr>selectedServiceId := Null, readDesc := False, link := Str [], quantity := Fin 0\<rparr>"
  have run: "runEffects prev cur = ?nxt"
    using assms by (simp add: runEffects_def categoryEffect_def serviceEffect_def Let_def)
  have "settle prev cur = settle cur ?nxt"
    using assms run by (subst settle.simps) simp
  also have "\<dots> = ?nxt"
  proof (cases "selectedServiceId cur = Null")
    case True
    then show ?thesis by (simp add: settle_same)
  next
    case False
    then show ?thesis by (simp add: settle_service_change)
  qed
  finally show ?thesis .
qed

text \<open>
  C3. For every state and every category value other than the selected one, picking it
  leaves the service unselected (\<open>null\<close>), the link empty, the quantity 0 and the
  description unacknowledged, whatever they were. For every service identifier other
  than the selected one, picking it leaves the description unacknowledged and the link,
  the quantity and the category as they were.
\<close>

theorem cascade_reset:
  "(catKey \<noteq> selectedCategory st \<longrightarrow>
      selectedCategory (pickCategory catKey st) = catKey \<and>
      selectedServiceId (pickCategory catKey st) = Null \<and>
      link (pickCategory catKey st) = Str [] \<and>
      quantity (pickCategory catKey st) = Fin 0 \<and>
      readDesc (pickCategory catKey st) = False) \<and>
   (providerServiceId \<noteq> selectedServiceId st \<longrightarrow>
      selectedServiceId (pickService providerServiceId st) = providerServiceId \<and>
      readDesc (pickService providerServiceId st) = False \<and>
      link (pickService providerServiceId st) = link st \<and>
      quantity (pickService providerServiceId st) = quantity st \<and>
      selectedCategory (pickService providerServiceId st) = selectedCategory st)"
proof (intro conjI impI)
  assume c: "catKey \<noteq> selectedCategory st"
  have "pickCategory catKey st =
      (onPickCategory catKey st)\<lparr>selectedServiceId := Null, readDesc := False, link := Str [], quantity := Fin 0\<rparr>"
    unfolding pickCategory_def using c
    by (intro settle_category_change) (simp add: onPickCategory_def showMsg_def)
  then show "selectedCategory (pickCategory catKey st) = catKey"
    "selectedServiceId (pickCategory catKey st) = Null"
    "link (pickCategory catKey st) = Str []"
    "quantity (pickCategory catKey st) = Fin 0"
    "readDesc (pickCategory catKey st) = False"
    by (simp_all add: onPickCategory_def showMsg_def)
next
  assume s: "providerServiceId \<noteq> selectedServiceId st"
  have "pickService providerServiceId st = (onPickService providerServiceId st)\<lparr>readDesc := False\<rparr>"
    unfolding pickService_def using s
    by (intro settle_service_change) (simp_all add: onPickService_def showMsg_def)
  then show "selectedServiceId (pickService providerServiceId st) = providerServiceId"
    "readDesc (pickService providerServiceId st) = False"
    "link (pickService providerServiceId st) = link st"
    "quantity (pickService providerServiceId st) = quantity st"
    "selectedCategory (pickService providerServiceId st) = selectedCategory st"
    by (simp_all add: onPickService_def showMsg_def)
qed

text \<open>
  On a filled selection: picking category \<open>B\<close> clears it, picking service \<open>8\<close> keeps
  its link and quantity.
\<close>

theorem cascade_reset_witness:
  "Str (ascii ''B'') \<noteq> selectedCategory (filled Null Null (Fin 5)) \<and>
   selectedCategory (pickCategory (Str (ascii ''B'')) (filled Null Null (Fin 5))) = Str (ascii ''B'') \<and>
   selectedServiceId (pickCategory (Str (ascii ''B'')) (filled Null Null (Fin 5))) = Null \<and>
   link (pickCategory (Str (ascii ''B'')) (filled Null Null (Fin 5))) = Str [] \<and>
   quantity (pickCategory (Str (ascii ''B'')) (filled Null Null (Fin 5))) = Fin 0 \<and>
   readDesc (pickCategory (Str (ascii ''B'')) (filled Null Null (Fin 5))) = False \<and>
   Str (ascii ''8'') \<noteq> selectedServiceId (filled Null Null (Fin 5)) \<and>
   selectedServiceId (pickService (Str (ascii ''8'')) (filled Null Null (Fin 5))) = Str (ascii ''8'') \<and>
   readDesc (pickService (Str (ascii ''8'')) (filled Null Null (Fin 5))) = False \<and>
   link (pickService (Str (ascii ''8'')) (filled Null Null (Fin 5))) = Str (ascii ''x.io'') \<and>
   quantity (pickService (Str (ascii ''8'')) (filled Null Null (Fin 5))) = Fin 5"
proof -
  have c: "Str (ascii ''B'') \<noteq> selectedCategory (filled Null Null (Fin 5))"
    by (simp add: filled_def ascii_def)
  have s: "Str (ascii ''8'') \<noteq> selectedServiceId (filled Null Null (Fin 5))"
    by (simp add: filled_def ascii_def)
  have l: "link (filled Null Null (Fin 5)) = Str (ascii ''x.io'')" "quantity (filled Null Null (Fin 5)) = Fin 5"
    by (simp_all add: filled_def)
  from cascade_reset [of "Str (ascii ''B'')" "filled Null Null (Fin 5)" "Str (ascii ''8'')"] c s l
  show ?thesis by simp
qed

section \<open>The active service\<close>

lemma toString_zero: "toString h (Num (Fin 0)) = ascii ''0''"
  by (simp add: decimal.simps ascii_def)

text \<open>
  C10, as amended. When the selected identifier is falsy the active service is none,
  also for the number 0, the empty string and \<open>null\<close> over a catalog whose first row
  has identifier 0. When it is truthy the active service is the first row whose
  identifier, as a string, equals the selected identifier as a string, and none when no
  row does. A row with identifier 0 is the active service for the selected identifier
  "0", the string that picking that row stores.
\<close>

theorem selectedService_first_match:
  "(\<not> truthy sid \<longrightarrow> selectedService h svcs sid = None) \<and>
   (truthy sid \<longrightarrow>
      (case selectedService h svcs sid of
         None \<Rightarrow> \<forall>s\<in>set svcs. toString h (provider_service_id s) \<noteq> toString h sid
       | Some r \<Rightarrow> \<exists>i<length svcs. svcs ! i = r \<and>
                    toString h (provider_service_id r) = toString h sid \<and>
                    (\<forall>j<i. toString h (provider_service_id (svcs ! j)) \<noteq> toString h sid))) \<and>
   (provider_service_id r0 = Num (Fin 0) \<longrightarrow>
      selectedService h (r0 # rest) (Num (Fin 0)) = None \<and>
      selectedService h (r0 # rest) (Str []) = None \<and>
      selectedService h (r0 # rest) Null = None \<and>
      selectedService h (r0 # rest) (Str (ascii ''0'')) = Some r0)"
proof (intro conjI impI)
  show "selectedService h svcs sid = None" if "\<not> truthy sid"
    using that by (simp add: selectedService_def)
  show "case selectedService h svcs sid of
         None \<Rightarrow> \<forall>s\<in>set svcs. toString h (provider_service_id s) \<noteq> toString h sid
       | Some r \<Rightarrow> \<exists>i<length svcs. svcs ! i = r \<and>
                    toString h (provider_service_id r) = toString h sid \<and>
                    (\<forall>j<i. toString h (provider_service_id (svcs ! j)) \<noteq> toString h sid)"
    if "truthy sid"
    using that by (auto simp: selectedService_def find_None_iff find_Some_iff split: option.splits)
  assume z: "provider_service_id r0 = Num (Fin 0)"
  show "selectedService h (r0 # rest) (Num (Fin 0)) = None"
    "selectedService h (r0 # rest) (Str []) = None"
    "selectedService h (r0 # rest) Null = None"
    by (simp_all add: selectedService_def)
  show "selectedService h (r0 # rest) (Str (ascii ''0'')) = Some r0"
    using z toString_zero [of h] by (simp add: selectedService_def ascii_def)
qed

text \<open>
  With "8" selected over the rows 7, 8 and "8" the active service is the row 8; over
  the single row 0 the number 0 selects nothing and the string "0" selects the row.
\<close>

theorem selectedService_first_match_witness:
  "truthy (Str (ascii ''8'')) \<and>
   selectedService sampleHost
     [row (Num (Fin 7)) Null Null Null, row (Num (Fin 8)) Null Null Null, row (Str (ascii ''8'')) Null Null Null]
     (Str (ascii ''8'')) = Some (row (Num (Fin 8)) Null Null Null) \<and>
   provider_service_id (row (Num (Fin 0)) Null Null Null) = Num (Fin 0) \<and>
   selectedService sampleHost [row (Num (Fin 0)) Null Null Null] (Num (Fin 0)) = None \<and>
   selectedService sampleHost [row (Num (Fin 0)) Null Null Null] (Str (ascii ''0'')) =
     Some (row (Num (Fin 0)) Null Null Null)"
proof -
  have a: "truthy (Str (ascii ''8''))"
    by (simp add: ascii_def)
  have b: "selectedService sampleHost
     [row (Num (Fin 7)) Null Null Null, row (Num (Fin 8)) Null Null Null, row (Str (ascii ''8'')) Null Null Null]
     (Str (ascii ''8'')) = Some (row (Num (Fin 8)) Null Null Null)"
    by (simp add: selectedService_def row_def ascii_def decimal.simps)
  have c: "provider_service_id (row (Num (Fin 0)) Null Null Null) = Num (Fin 0)"
    by (simp add: row_def)
  from selectedService_first_match [of "Str (ascii ''8'')" sampleHost _ "row (Num (Fin 0)) Null Null Null" "[]"] a b c
  show ?thesis by simp
qed

text \<open>
  A row with identifier 0 does become the active service: the service button passes
  \<open>String(0)\<close>, the truthy string "0" (lines 399 and 409), and the lookup finds the row.
\<close>

theorem identifier_zero_counterexample:
  "provider_service_id (row (Num (Fin 0)) (Str (ascii ''A'')) Null Null) = Num (Fin 0) \<and>
   selectedServiceId (onPickService (Str (toString sampleHost (Num (Fin 0)))) (initialState [])) = Str (ascii ''0'') \<and>
   selectedService sampleHost [row (Num (Fin 0)) (Str (ascii ''A'')) Null Null] (Str (ascii ''0'')) =
     Some (row (Num (Fin 0)) (Str (ascii ''A'')) Null Null)"
  by (simp add: selectedService_def row_def ascii_def decimal.simps onPickService_def showMsg_def)

section \<open>Submission\<close>

lemma finish_simps [simp]:
  "shown (finish st ms reqs) = ms"
  "sent (finish st ms reqs) = reqs"
  "after (finish st (m # ms) reqs) = st\<lparr>uiMsg := last (m # ms)\<rparr>"
  "after (finish st [] reqs) = st"
  by (simp_all add: finish_def)

lemma validate_passes_service:
  "validateBeforeSubmit h st = NoMessage \<Longrightarrow> \<exists>svc. selectedService h (services st) (selectedServiceId st) = Some svc"
  by (auto simp: validateBeforeSubmit_def Let_def split: option.splits if_splits)

lemma filled_service:
  "selectedService sampleHost (services (filled mn mx q)) (selectedServiceId (filled mn mx q)) =
     Some (row (Num (Fin 7)) (Str (ascii ''A'')) mn mx)"
  by (simp add: filled_def initialState_def row_def selectedService_def ascii_def decimal.simps)

lemma filled_passes: "validateBeforeSubmit sampleHost (filled Undefined Undefined (Fin 5)) = NoMessage"
  by (simp add: validateBeforeSubmit_def filled_service)
     (simp add: filled_def row_def trim_def ascii_def isWhiteSpace_def isPositiveIntLike_def num_simps)

lemma sample_truthy: "truthy sampleBase" "truthy sampleToken"
  by (simp_all add: sampleBase_def sampleToken_def ascii_def)

lemma sample_fields:
  "optField (ascii ''ok'') okBody = JPrim (Bool True)"
  "optField (ascii ''ok'') badLinkBody = JPrim (Bool False)"
  "optField (ascii ''message'') badLinkBody = JPrim (Str (ascii ''bad link''))"
  "optField (ascii ''ok'') emptyMessageBody = JPrim (Bool False)"
  "optField (ascii ''message'') emptyMessageBody = JPrim (Str [])"
  "optField (ascii ''ok'') (JObj []) = JPrim Undefined"
  "optField (ascii ''message'') (JObj []) = JPrim Undefined"
  by (simp_all add: okBody_def badLinkBody_def emptyMessageBody_def ascii_def)

lemma filled_validator_env:
  "VITE_API_BASE (sampleEnv sampleBase (Fulfilled sampleToken) answer) = sampleBase"
  "getSession (sampleEnv sampleBase (Fulfilled sampleToken) answer) = Fulfilled sampleToken"
  "fetch (sampleEnv base session answer) r = answer"
  by (simp_all add: sampleEnv_def)

text \<open>What a call does once the validator, the base and the credential are in order.\<close>

lemma createOrder_sends:
  assumes "validateBeforeSubmit h st = NoMessage" "truthy (VITE_API_BASE env)"
    "getSession env = Fulfilled token" "truthy token"
    "selectedService h (services st) (selectedServiceId st) = Some svc"
  shows "createOrder h env st =
     (let creating = \<lparr>msg_type = Info, msg_text = Creating\<rparr>;
          req = orderRequest h (VITE_API_BASE env) token svc st in
      case fetch env req of
        Rejected e \<Rightarrow> finish st [creating, \<lparr>msg_type = Error, msg_text = NetworkError e\<rparr>] [req]
      | Fulfilled res \<Rightarrow>
          if res_ok res \<and> truthyJson (optField (ascii ''ok'') (decodedBody res))
          then finish (st\<lparr>link := Str [], quantity := Fin 0, readDesc := False\<rparr>)
                 [creating, \<lparr>msg_type = Success, msg_text = OrderCreated\<rparr>] [req]
          else finish st [creating, \<lparr>msg_type = Error,
                 msg_text = (if truthyJson (optField (ascii ''message'') (decodedBody res))
                             then ServerMessage (optField (ascii ''message'') (decodedBody res))
                             else OrderFailed)\<rparr>] [req])"
  using assms by (simp add: createOrder_def Let_def split: settled.split)

text \<open>
  C8. For every call: a request is sent only if the validator passes, the API base is
  configured and the session provider answers with a credential. When the validator
  fails, the call shows the error notification with its message and nothing else, and
  sends nothing. When the validator passes and the base is missing, it shows the
  in-progress notice and then the configuration error, and sends nothing. When validator
  and base are in order and the provider answers without a credential, it shows the
  in-progress notice and then the sign-in error, and sends nothing.
\<close>

theorem no_request_before_checks:
  "(sent (createOrder h env st) \<noteq> [] \<longrightarrow>
      validateBeforeSubmit h st = NoMessage \<and> truthy (VITE_API_BASE env) \<and>
      (\<exists>token. getSession env = Fulfilled token \<and> truthy token)) \<and>
   (validateBeforeSubmit h st \<noteq> NoMessage \<longrightarrow>
      shown (createOrder h env st) = [\<lparr>msg_type = Error, msg_text = validateBeforeSubmit h st\<rparr>] \<and>
      sent (createOrder h env st) = []) \<and>
   (validateBeforeSubmit h st = NoMessage \<and> \<not> truthy (VITE_API_BASE env) \<longrightarrow>
      shown (createOrder h env st) =
        [\<lparr>msg_type = Info, msg_text = Creating\<rparr>, \<lparr>msg_type = Error, msg_text = ApiBaseMissing\<rparr>] \<and>
      sent (createOrder h env st) = []) \<and>
   (validateBeforeSubmit h st = NoMessage \<and> truthy (VITE_API_BASE env) \<and>
    getSession env = Fulfilled token \<and> \<not> truthy token \<longrightarrow>
      shown (createOrder h env st) =
        [\<lparr>msg_type = Info, msg_text = Creating\<rparr>, \<lparr>msg_type = Error, msg_text = SignInFirst\<rparr>] \<and>
      sent (createOrder h env st) = [])"
proof (cases "validateBeforeSubmit h st = NoMessage")
  case False
  then show ?thesis
    by (simp add: createOrder_def Let_def)
next
  case True
  then obtain svc where "selectedService h (services st) (selectedServiceId st) = Some svc"
    using validate_passes_service by blast
  with True show ?thesis
    by (cases "getSession env") (auto simp: createOrder_def Let_def split: settled.splits)
qed

text \<open>
  A filled selection with base and credential sends its request; the initial state
  stops at the validator; a filled selection stops at a missing base, and at a missing
  credential.
\<close>

theorem no_request_before_checks_witness:
  "sent (createOrder sampleHost
     (sampleEnv sampleBase (Fulfilled sampleToken) (Fulfilled \<lparr>res_ok = True, res_json = Some okBody\<rparr>))
     (filled Undefined Undefined (Fin 5))) \<noteq> [] \<and>
   validateBeforeSubmit sampleHost (filled Undefined Undefined (Fin 5)) = NoMessage \<and>
   truthy sampleBase \<and> truthy sampleToken \<and>
   validateBeforeSubmit sampleHost (initialState []) \<noteq> NoMessage \<and>
   shown (createOrder sampleHost (sampleEnv Undefined (Fulfilled Undefined) (Rejected Undefined)) (initialState [])) =
     [\<lparr>msg_type = Error, msg_text = ChooseCategory\<rparr>] \<and>
   sent (createOrder sampleHost (sampleEnv Undefined (Fulfilled Undefined) (Rejected Undefined)) (initialState [])) = [] \<and>
   \<not> truthy Undefined \<and>
   shown (createOrder sampleHost (sampleEnv Undefined (Fulfilled sampleToken) (Rejected Undefined))
     (filled Undefined Undefined (Fin 5))) =
     [\<lparr>msg_type = Info, msg_text = Creating\<rparr>, \<lparr>msg_type = Error, msg_text = ApiBaseMissing\<rparr>] \<and>
   sent (createOrder sampleHost (sampleEnv Undefined (Fulfilled sampleToken) (Rejected Undefined))
     (filled Undefined Undefined (Fin 5))) = [] \<and>
   shown (createOrder sampleHost (sampleEnv sampleBase (Fulfilled Undefined) (Rejected Undefined))
     (filled Undefined Undefined (Fin 5))) =
     [\<lparr>msg_type = Info, msg_text = Creating\<rparr>, \<lparr>msg_type = Error, msg_text = SignInFirst\<rparr>] \<and>
   sent (createOrder sampleHost (sampleEnv sampleBase (Fulfilled Undefined) (Rejected Undefined))
     (filled Undefined Undefined (Fin 5))) = []"
proof -
  let ?st = "filled Undefined Undefined (Fin 5)"
  let ?good = "sampleEnv sampleBase (Fulfilled sampleToken) (Fulfilled \<lparr>res_ok = True, res_json = Some okBody\<rparr>)"
  have s: "sent (createOrder sampleHost ?good ?st) \<noteq> []"
    by (subst createOrder_sends [where token = sampleToken and svc = "row (Num (Fin 7)) (Str (ascii ''A'')) Undefined Undefined"])
       (simp_all add: filled_passes filled_service filled_validator_env sample_truthy decodedBody_def sample_fields)
  have v: "validateBeforeSubmit sampleHost (initialState []) = ChooseCategory"
    by (simp add: validateBeforeSubmit_def initialState_def)
  from no_request_before_checks [of sampleHost ?good ?st]
    no_request_before_checks [of sampleHost "sampleEnv Undefined (Fulfilled Undefined) (Rejected Undefined)" "initialState []"]
    no_request_before_checks [of sampleHost "sampleEnv Undefined (Fulfilled sampleToken) (Rejected Undefined)" ?st]
    no_request_before_checks [of sampleHost "sampleEnv sampleBase (Fulfilled Undefined) (Rejected Undefined)" ?st Undefined]
    s v filled_passes sample_truthy
  show ?thesis by (simp add: sampleEnv_def)
qed

text \<open>
  C6, as amended. For every response the endpoint gives to the request of a call that
  passed the validator with base and credential: the call succeeds if and only if
  \<open>res.ok\<close> holds and the \<open>ok\<close> field of the decoded body is truthy; a body that does
  not parse is the empty object and the call does not succeed; and when it does not
  succeed the last notification is the error with the body's \<open>message\<close> field when that
  field is truthy, and with the fixed fallback text otherwise (also when the field is
  present and empty).
\<close>

theorem response_classification:
  assumes "validateBeforeSubmit h st = NoMessage" "truthy (VITE_API_BASE env)"
    "getSession env = Fulfilled token" "truthy token"
    "selectedService h (services st) (selectedServiceId st) = Some svc"
    "fetch env (orderRequest h (VITE_API_BASE env) token svc st) = Fulfilled res"
  shows "(succeeded h env st \<longleftrightarrow> res_ok res \<and> truthyJson (optField (ascii ''ok'') (decodedBody res))) \<and>
         (res_json res = None \<longrightarrow> decodedBody res = JObj [] \<and> \<not> succeeded h env st) \<and>
         (\<not> succeeded h env st \<longrightarrow>
            last (shown (createOrder h env st)) =
              \<lparr>msg_type = Error,
               msg_text = (if truthyJson (optField (ascii ''message'') (decodedBody res))
                           then ServerMessage (optField (ascii ''message'') (decodedBody res))
                           else OrderFailed)\<rparr>)"
proof -
  note c = createOrder_sends [OF assms(1-5)]
  have s: "succeeded h env st \<longleftrightarrow> res_ok res \<and> truthyJson (optField (ascii ''ok'') (decodedBody res))"
    using assms(6) by (simp add: succeeded_def c Let_def)
  have n: "decodedBody res = JObj [] \<and> \<not> succeeded h env st" if "res_json res = None"
    using that by (simp add: s) (simp add: decodedBody_def)
  have f: "last (shown (createOrder h env st)) =
              \<lparr>msg_type = Error,
               msg_text = (if truthyJson (optField (ascii ''message'') (decodedBody res))
                           then ServerMessage (optField (ascii ''message'') (decodedBody res))
                           else OrderFailed)\<rparr>" if "\<not> succeeded h env st"
    using that assms(6) unfolding s by (simp add: c Let_def)
  from s n f show ?thesis by blast
qed

text \<open>
  The body \<open>{ok: false, message: "bad link"}\<close> shows "bad link", the body \<open>{}\<close> with a
  failed status shows the fallback, and \<open>{ok: true}\<close> with a good status succeeds.
\<close>

theorem response_classification_witness:
  "validateBeforeSubmit sampleHost (filled Undefined Undefined (Fin 5)) = NoMessage \<and>
   truthy sampleBase \<and> truthy sampleToken \<and>
   \<not> succeeded sampleHost
       (sampleEnv sampleBase (Fulfilled sampleToken) (Fulfilled \<lparr>res_ok = False, res_json = Some badLinkBody\<rparr>))
       (filled Undefined Undefined (Fin 5)) \<and>
   last (shown (createOrder sampleHost
       (sampleEnv sampleBase (Fulfilled sampleToken) (Fulfilled \<lparr>res_ok = False, res_json = Some badLinkBody\<rparr>))
       (filled Undefined Undefined (Fin 5)))) =
     \<lparr>msg_type = Error, msg_text = ServerMessage (JPrim (Str (ascii ''bad link'')))\<rparr> \<and>
   last (shown (createOrder sampleHost
       (sampleEnv sampleBase (Fulfilled sampleToken) (Fulfilled \<lparr>res_ok = False, res_json = Some (JObj [])\<rparr>))
       (filled Undefined Undefined (Fin 5)))) =
     \<lparr>msg_type = Error, msg_text = OrderFailed\<rparr> \<and>
   succeeded sampleHost
       (sampleEnv sampleBase (Fulfilled sampleToken) (Fulfilled \<lparr>res_ok = True, res_json = Some okBody\<rparr>))
       (filled Undefined Undefined (Fin 5))"
proof -
  let ?st = "filled Undefined Undefined (Fin 5)"
  let ?env = "\<lambda>res. sampleEnv sampleBase (Fulfilled sampleToken) (Fulfilled res)"
  have cls: "(succeeded sampleHost (?env res) ?st \<longleftrightarrow>
        res_ok res \<and> truthyJson (optField (ascii ''ok'') (decodedBody res))) \<and>
      (\<not> succeeded sampleHost (?env res) ?st \<longrightarrow>
        last (shown (createOrder sampleHost (?env res) ?st)) =
          \<lparr>msg_type = Error,
           msg_text = (if truthyJson (optField (ascii ''message'') (decodedBody res))
                       then ServerMessage (optField (ascii ''message'') (decodedBody res))
                       else OrderFailed)\<rparr>)" for res
    using response_classification [of sampleHost ?st "?env res" sampleToken _ res]
    by (simp add: filled_passes filled_service filled_validator_env sample_truthy)
  have bodies: "decodedBody \<lparr>res_ok = False, res_json = Some badLinkBody\<rparr> = badLinkBody"
    "decodedBody \<lparr>res_ok = False, res_json = Some (JObj [])\<rparr> = JObj []"
    "decodedBody \<lparr>res_ok = True, res_json = Some okBody\<rparr> = okBody"
    by (simp_all add: decodedBody_def)
  have t: "ascii ''bad link'' \<noteq> []"
    by (simp add: ascii_def)
  from cls [of "\<lparr>res_ok = False, res_json = Some badLinkBody\<rparr>"]
       cls [of "\<lparr>res_ok = False, res_json = Some (JObj [])\<rparr>"]
       cls [of "\<lparr>res_ok = True, res_json = Some okBody\<rparr>"]
  show ?thesis
    by (simp add: bodies sample_fields filled_passes sample_truthy t)
qed

text \<open>
  The body \<open>{ok: false, message: ""}\<close> has a message field, the empty string; the
  notification shows the fallback text, not the field.
\<close>

theorem empty_message_counterexample:
  "optField (ascii ''message'') emptyMessageBody = JPrim (Str []) \<and>
   \<not> succeeded sampleHost
       (sampleEnv sampleBase (Fulfilled sampleToken) (Fulfilled \<lparr>res_ok = False, res_json = Some emptyMessageBody\<rparr>))
       (filled Undefined Undefined (Fin 5)) \<and>
   last (shown (createOrder sampleHost
       (sampleEnv sampleBase (Fulfilled sampleToken) (Fulfilled \<lparr>res_ok = False, res_json = Some emptyMessageBody\<rparr>))
       (filled Undefined Undefined (Fin 5)))) =
     \<lparr>msg_type = Error, msg_text = OrderFailed\<rparr>"
proof -
  let ?st = "filled Undefined Undefined (Fin 5)"
  let ?env = "sampleEnv sampleBase (Fulfilled sampleToken) (Fulfilled \<lparr>res_ok = False, res_json = Some emptyMessageBody\<rparr>)"
  have "createOrder sampleHost ?env ?st =
      finish ?st [\<lparr>msg_type = Info, msg_text = Creating\<rparr>, \<lparr>msg_type = Error, msg_text = OrderFailed\<rparr>]
        [orderRequest sampleHost sampleBase sampleToken (row (Num (Fin 7)) (Str (ascii ''A'')) Undefined Undefined) ?st]"
    by (subst createOrder_sends [where token = sampleToken and svc = "row (Num (Fin 7)) (Str (ascii ''A'')) Undefined Undefined"])
       (simp_all add: filled_passes filled_service filled_validator_env sample_truthy decodedBody_def sample_fields)
  then show ?thesis
    by (simp add: succeeded_def sample_fields)
qed

text \<open>
  C7. For every call, by what it meets. A validation fault (the validator returns a
  message), a configuration fault (no API base), a network fault (the session provider
  or the endpoint throws), an authentication fault (the provider answers without a
  credential) and a server fault (the endpoint answers, and \<open>res.ok\<close> or the \<open>ok\<close> field
  of the decoded body is falsy) each leave category, service, link, quantity and
  acknowledgement as they were. A success (the endpoint answers with \<open>res.ok\<close> and a
  truthy \<open>ok\<close> field) leaves the link empty, the quantity 0 and the description
  unacknowledged, and category and service as they were.
\<close>

theorem submission_frame:
  "(validateBeforeSubmit h st \<noteq> NoMessage \<longrightarrow> sameSelection st (after (createOrder h env st))) \<and>
   (validateBeforeSubmit h st = NoMessage \<and> \<not> truthy (VITE_API_BASE env) \<longrightarrow>
      sameSelection st (after (createOrder h env st))) \<and>
   (validateBeforeSubmit h st = NoMessage \<and> truthy (VITE_API_BASE env) \<and> getSession env = Rejected e \<longrightarrow>
      sameSelection st (after (createOrder h env st))) \<and>
   (validateBeforeSubmit h st = NoMessage \<and> truthy (VITE_API_BASE env) \<and>
    getSession env = Fulfilled token \<and> \<not> truthy token \<longrightarrow>
      sameSelection st (after (createOrder h env st))) \<and>
   (validateBeforeSubmit h st = NoMessage \<and> truthy (VITE_API_BASE env) \<and>
    getSession env = Fulfilled token \<and> truthy token \<and>
    selectedService h (services st) (selectedServiceId st) = Some svc \<and>
    fetch env (orderRequest h (VITE_API_BASE env) token svc st) = Rejected e \<longrightarrow>
      sameSelection st (after (createOrder h env st))) \<and>
   (validateBeforeSubmit h st = NoMessage \<and> truthy (VITE_API_BASE env) \<and>
    getSession env = Fulfilled token \<and> truthy token \<and>
    selectedService h (services st) (selectedServiceId st) = Some svc \<and>
    fetch env (orderRequest h (VITE_API_BASE env) token svc st) = Fulfilled res \<and>
    \<not> (res_ok res \<and> truthyJson (optField (ascii ''ok'') (decodedBody res))) \<longrightarrow>
      sameSelection st (after (createOrder h env st))) \<and>
   (validateBeforeSubmit h st = NoMessage \<and> truthy (VITE_API_BASE env) \<and>
    getSession env = Fulfilled token \<and> truthy token \<and>
    selectedService h (services st) (selectedServiceId st) = Some svc \<and>
    fetch env (orderRequest h (VITE_API_BASE env) token svc st) = Fulfilled res \<and>
    res_ok res \<and> truthyJson (optField (ascii ''ok'') (decodedBody res)) \<longrightarrow>
      link (after (createOrder h env st)) = Str [] \<and>
      quantity (after (createOrder h env st)) = Fin 0 \<and>
      readDesc (after (createOrder h env st)) = False \<and>
      selectedCategory (after (createOrder h env st)) = selectedCategory st \<and>
      selectedServiceId (after (createOrder h env st)) = selectedServiceId st)"
proof (intro conjI impI; (elim conjE)?)
  show "sameSelection st (after (createOrder h env st))" if "validateBeforeSubmit h st \<noteq> NoMessage"
    using that by (simp add: createOrder_def sameSelection_def)
next
  assume v: "validateBeforeSubmit h st = NoMessage"
  then obtain svc0 where s0: "selectedService h (services st) (selectedServiceId st) = Some svc0"
    using validate_passes_service by blast
  show "sameSelection st (after (createOrder h env st))" if "\<not> truthy (VITE_API_BASE env)"
    using v s0 that by (simp add: createOrder_def sameSelection_def)
  show "sameSelection st (after (createOrder h env st))"
    if "truthy (VITE_API_BASE env)" "getSession env = Rejected e"
    using v s0 that by (simp add: createOrder_def sameSelection_def)
  show "sameSelection st (after (createOrder h env st))"
    if "truthy (VITE_API_BASE env)" "getSession env = Fulfilled token" "\<not> truthy token"
    using v s0 that by (simp add: createOrder_def sameSelection_def)
  show "sameSelection st (after (createOrder h env st))"
    if "truthy (VITE_API_BASE env)" "getSession env = Fulfilled token" "truthy token"
      "selectedService h (services st) (selectedServiceId st) = Some svc"
      "fetch env (orderRequest h (VITE_API_BASE env) token svc st) = Rejected e"
    using that by (simp add: createOrder_sends [OF v that(1-4)] sameSelection_def)
  show "sameSelection st (after (createOrder h env st))"
    if "truthy (VITE_API_BASE env)" "getSession env = Fulfilled token" "truthy token"
      "selectedService h (services st) (selectedServiceId st) = Some svc"
      "fetch env (orderRequest h (VITE_API_BASE env) token svc st) = Fulfilled res"
      "\<not> (res_ok res \<and> truthyJson (optField (ascii ''ok'') (decodedBody res)))"
    using that by (auto simp: createOrder_sends [OF v that(1-4)] sameSelection_def)
  assume ok: "truthy (VITE_API_BASE env)" "getSession env = Fulfilled token" "truthy token"
      "selectedService h (services st) (selectedServiceId st) = Some svc"
      "fetch env (orderRequest h (VITE_API_BASE env) token svc st) = Fulfilled res"
      "res_ok res" "truthyJson (optField (ascii ''ok'') (decodedBody res))"
  then show "link (after (createOrder h env st)) = Str []"
    "quantity (after (createOrder h env st)) = Fin 0"
    "readDesc (after (createOrder h env st)) = False"
    "selectedCategory (after (createOrder h env st)) = selectedCategory st"
    "selectedServiceId (after (createOrder h env st)) = selectedServiceId st"
    by (simp_all add: createOrder_sends [OF v ok(1-4)])
qed

text \<open>
  One call for each: the initial state stops at the validator although nothing else
  would fail; the filled selection keeps its five fields without a base, with a
  provider that throws, without a credential, with an endpoint that throws and with
  the answer \<open>{ok: false, message: "bad link"}\<close>; and where nothing fails it keeps
  category \<open>A\<close> and service \<open>7\<close> and loses link, quantity and acknowledgement.
\<close>

theorem submission_frame_witness:
  "validateBeforeSubmit sampleHost (initialState []) \<noteq> NoMessage \<and>
   sameSelection (initialState []) (after (createOrder sampleHost goodEnv (initialState []))) \<and>
   validateBeforeSubmit sampleHost (filled Undefined Undefined (Fin 5)) = NoMessage \<and>
   truthy sampleBase \<and> truthy sampleToken \<and> \<not> truthy Undefined \<and>
   sameSelection (filled Undefined Undefined (Fin 5))
     (after (createOrder sampleHost (sampleEnv Undefined (Fulfilled sampleToken) okAnswer)
        (filled Undefined Undefined (Fin 5)))) \<and>
   sameSelection (filled Undefined Undefined (Fin 5))
     (after (createOrder sampleHost (sampleEnv sampleBase (Rejected Undefined) okAnswer)
        (filled Undefined Undefined (Fin 5)))) \<and>
   sameSelection (filled Undefined Undefined (Fin 5))
     (after (createOrder sampleHost (sampleEnv sampleBase (Fulfilled Undefined) okAnswer)
        (filled Undefined Undefined (Fin 5)))) \<and>
   sameSelection (filled Undefined Undefined (Fin 5))
     (after (createOrder sampleHost (sampleEnv sampleBase (Fulfilled sampleToken) (Rejected Undefined))
        (filled Undefined Undefined (Fin 5)))) \<and>
   sameSelection (filled Undefined Undefined (Fin 5))
     (after (createOrder sampleHost (sampleEnv sampleBase (Fulfilled sampleToken) badLinkAnswer)
        (filled Undefined Undefined (Fin 5)))) \<and>
   link (filled Undefined Undefined (Fin 5)) = Str (ascii ''x.io'') \<and>
   link (after (createOrder sampleHost goodEnv (filled Undefined Undefined (Fin 5)))) = Str [] \<and>
   quantity (after (createOrder sampleHost goodEnv (filled Undefined Undefined (Fin 5)))) = Fin 0 \<and>
   readDesc (after (createOrder sampleHost goodEnv (filled Undefined Undefined (Fin 5)))) = False \<and>
   selectedCategory (after (createOrder sampleHost goodEnv (filled Undefined Undefined (Fin 5)))) =
     Str (ascii ''A'') \<and>
   selectedServiceId (after (createOrder sampleHost goodEnv (filled Undefined Undefined (Fin 5)))) =
     Str (ascii ''7'')"
proof -
  let ?st = "filled Undefined Undefined (Fin 5)"
  let ?svc = "row (Num (Fin 7)) (Str (ascii ''A'')) Undefined Undefined"
  let ?ok = "\<lparr>res_ok = True, res_json = Some okBody\<rparr>"
  let ?bad = "\<lparr>res_ok = False, res_json = Some badLinkBody\<rparr>"
  have v0: "validateBeforeSubmit sampleHost (initialState []) \<noteq> NoMessage"
    by (simp add: validateBeforeSubmit_def initialState_def)
  note p = filled_passes and s = filled_service [of Undefined Undefined "Fin 5"]
  have u: "\<not> truthy Undefined" by simp
  have bodies: "decodedBody ?ok = okBody" "decodedBody ?bad = badLinkBody"
    by (simp_all add: decodedBody_def)
  have f: "selectedCategory ?st = Str (ascii ''A'')" "selectedServiceId ?st = Str (ascii ''7'')"
    "link ?st = Str (ascii ''x.io'')"
    by (simp_all add: filled_def)
  have c1: "sameSelection (initialState []) (after (createOrder sampleHost goodEnv (initialState [])))"
    using submission_frame [where h = sampleHost and st = "initialState []" and env = goodEnv
        and e = Undefined and token = sampleToken and svc = ?svc and res = ?ok] v0
    by blast
  have c2: "sameSelection ?st
     (after (createOrder sampleHost (sampleEnv Undefined (Fulfilled sampleToken) okAnswer) ?st))"
    using submission_frame [where h = sampleHost and st = ?st
        and env = "sampleEnv Undefined (Fulfilled sampleToken) okAnswer"
        and e = Undefined and token = sampleToken and svc = ?svc and res = ?ok] p
    by (simp add: sampleEnv_def)
  have c3: "sameSelection ?st
     (after (createOrder sampleHost (sampleEnv sampleBase (Rejected Undefined) okAnswer) ?st))"
    using submission_frame [where h = sampleHost and st = ?st
        and env = "sampleEnv sampleBase (Rejected Undefined) okAnswer"
        and e = Undefined and token = sampleToken and svc = ?svc and res = ?ok] p sample_truthy
    by (simp add: sampleEnv_def)
  have c4: "sameSelection ?st
     (after (createOrder sampleHost (sampleEnv sampleBase (Fulfilled Undefined) okAnswer) ?st))"
    using submission_frame [where h = sampleHost and st = ?st
        and env = "sampleEnv sampleBase (Fulfilled Undefined) okAnswer"
        and e = Undefined and token = Undefined and svc = ?svc and res = ?ok] p sample_truthy
    by (simp add: sampleEnv_def)
  have c5: "sameSelection ?st
     (after (createOrder sampleHost (sampleEnv sampleBase (Fulfilled sampleToken) (Rejected Undefined)) ?st))"
    using submission_frame [where h = sampleHost and st = ?st
        and env = "sampleEnv sampleBase (Fulfilled sampleToken) (Rejected Undefined)"
        and e = Undefined and token = sampleToken and svc = ?svc and res = ?ok] p s sample_truthy
    by (simp add: sampleEnv_def)
  have c6: "sameSelection ?st
     (after (createOrder sampleHost (sampleEnv sampleBase (Fulfilled sampleToken) badLinkAnswer) ?st))"
    using submission_frame [where h = sampleHost and st = ?st
        and env = "sampleEnv sampleBase (Fulfilled sampleToken) badLinkAnswer"
        and e = Undefined and token = sampleToken and svc = ?svc and res = ?bad] p s sample_truthy
    by (simp add: sampleEnv_def badLinkAnswer_def bodies sample_fields)
  have c7: "link (after (createOrder sampleHost goodEnv ?st)) = Str [] \<and>
      quantity (after (createOrder sampleHost goodEnv ?st)) = Fin 0 \<and>
      readDesc (after (createOrder sampleHost goodEnv ?st)) = False \<and>
      selectedCategory (after (createOrder sampleHost goodEnv ?st)) = selectedCategory ?st \<and>
      selectedServiceId (after (createOrder sampleHost goodEnv ?st)) = selectedServiceId ?st"
    using submission_frame [where h = sampleHost and st = ?st and env = goodEnv
        and e = Undefined and token = sampleToken and svc = ?svc and res = ?ok] p s sample_truthy
    by (simp add: goodEnv_def sampleEnv_def okAnswer_def bodies sample_fields)
  from v0 c1 p sample_truthy u c2 c3 c4 c5 c6 c7 f show ?thesis
    by simp
qed

section \<open>The services of a category\<close>

text \<open>The sort returns the elements it was given.\<close>

lemma mset_sort_insert: "mset (sort_insert cmp x xs) = add_mset x (mset xs)"
  by (induction xs) auto

lemma mset_sort_by: "mset (sort_by cmp xs) = mset xs"
  by (induction xs) (auto simp: mset_sort_insert)

lemma set_sort_insert: "set (sort_insert cmp x xs) = insert x (set xs)"
  by (induction xs) auto

lemma set_sort_by: "set (sort_by cmp xs) = set xs"
  by (induction xs) (auto simp: set_sort_insert)

lemma consistentOn_subset: "consistentOn cmp M \<Longrightarrow> N \<subseteq> M \<Longrightarrow> consistentOn cmp N"
  unfolding consistentOn_def by blast

text \<open>Under a consistent comparator the sort returns them in ascending order.\<close>

lemma sorted_sort_insert:
  assumes "consistentOn cmp (insert x (set xs))" "sorted_wrt (\<lambda>a b. cmp a b \<le> 0) xs"
  shows "sorted_wrt (\<lambda>a b. cmp a b \<le> 0) (sort_insert cmp x xs)"
  using assms
proof (induction xs)
  case Nil
  then show ?case by simp
next
  case (Cons y ys)
  have sub: "consistentOn cmp (insert x (set ys))"
    by (rule consistentOn_subset [OF Cons.prems(1)]) auto
  have anti: "cmp y x \<le> 0" if "cmp x y > 0"
    using Cons.prems(1) that unfolding consistentOn_def by simp
  have trans: "cmp x z \<le> 0" if "cmp x y \<le> 0" "z \<in> set ys" for z
  proof -
    from Cons.prems(2) that(2) have "cmp y z \<le> 0" by simp
    with that show ?thesis
      using Cons.prems(1) unfolding consistentOn_def by (meson insertI1 insertI2 list.set_intros)
  qed
  show ?case
  proof (cases "cmp x y > 0")
    case True
    with Cons sub anti show ?thesis
      by (auto simp: set_sort_insert)
  next
    case False
    with Cons.prems(2) trans show ?thesis
      by auto
  qed
qed

lemma sorted_sort_by:
  "consistentOn cmp (set xs) \<Longrightarrow> sorted_wrt (\<lambda>a b. cmp a b \<le> 0) (sort_by cmp xs)"
proof (induction xs)
  case Nil
  then show ?case by simp
next
  case (Cons x xs)
  have "consistentOn cmp (set xs)"
    by (rule consistentOn_subset [OF Cons.prems]) auto
  with Cons.IH have "sorted_wrt (\<lambda>a b. cmp a b \<le> 0) (sort_by cmp xs)" .
  moreover have "consistentOn cmp (insert x (set (sort_by cmp xs)))"
    using Cons.prems by (simp add: set_sort_by)
  ultimately show ?case
    by (simp add: sorted_sort_insert)
qed

text \<open>
  On identifiers that all convert to finite numbers the comparison function is the
  numeric order, a consistent comparator.
\<close>

lemma compareServices_numeric:
  "toNumber h (provider_service_id a) = Fin av \<Longrightarrow> toNumber h (provider_service_id b) = Fin bv \<Longrightarrow>
   compareServices h a b = av - bv"
  by (simp add: compareServices_def)

lemma numeric_consistent:
  assumes "\<forall>s\<in>M. isFinite (toNumber h (provider_service_id s))"
  shows "consistentOn (compareServices h) M"
proof -
  have fin: "\<exists>v. toNumber h (provider_service_id s) = Fin v" if "s \<in> M" for s
    using assms that by (cases "toNumber h (provider_service_id s)") auto
  show ?thesis
    unfolding consistentOn_def
  proof (intro conjI ballI impI)
    fix a b assume "a \<in> M" "b \<in> M" "0 < compareServices h a b"
    then show "compareServices h b a \<le> 0"
      using fin [of a] fin [of b] by (auto simp: compareServices_numeric)
  next
    fix a b c assume "a \<in> M" "b \<in> M" "c \<in> M" "compareServices h a b \<le> 0" "compareServices h b c \<le> 0"
    then show "compareServices h a c \<le> 0"
      using fin [of a] fin [of b] fin [of c] by (auto simp: compareServices_numeric)
  qed
qed

text \<open>
  On mixed identifiers it is not: "9" is below "10" as numbers, "10" below "1a" and
  "1a" below "9" as strings, so no order of the three is ascending.
\<close>

lemma sample_numbers:
  "StringToNumber sampleHost (ascii ''7'') = Fin 7"
  "StringToNumber sampleHost (ascii ''9'') = Fin 9"
  "StringToNumber sampleHost (ascii ''10'') = Fin 10"
  "StringToNumber sampleHost (ascii ''1a'') = NaN"
  by (simp_all add: sampleHost_def sampleStringToNumber_def trim_def ascii_def isWhiteSpace_def isDigit_def)

lemma sample_categories:
  "normalizeCategory (Str (ascii ''A'')) = ascii ''A''"
  "normalizeCategory (Str (ascii '' A '')) = ascii ''A''"
  "normalizeCategory (Str (ascii ''B'')) = ascii ''B''"
  "normalizeCategory (Str []) = []"
  "normalizeCategory Null = []"
  by (simp_all add: normalizeCategory_def trim_def ascii_def isWhiteSpace_def)

lemma sample_locale:
  "localeCompare sampleHost (ascii ''10'') (ascii ''1a'') = - 1"
  "localeCompare sampleHost (ascii ''1a'') (ascii ''9'') = - 1"
  by (simp_all add: sampleHost_def ascii_def)

lemma mixed_identifiers_cycle:
  "compareServices sampleHost (row (Str (ascii ''9'')) c Null Null) (row (Str (ascii ''10'')) c Null Null) < 0 \<and>
   compareServices sampleHost (row (Str (ascii ''10'')) c Null Null) (row (Str (ascii ''1a'')) c Null Null) < 0 \<and>
   compareServices sampleHost (row (Str (ascii ''1a'')) c Null Null) (row (Str (ascii ''9'')) c Null Null) < 0"
  by (simp add: compareServices_def row_def sample_numbers sample_locale)

text \<open>
  C9, as amended. For every catalog and selected category: when the normalized selected
  category is empty the list is empty; otherwise the list holds exactly the records
  whose normalized category equals the normalized selected category, each as often as
  the catalog does; it is ascending under the comparison function (numeric when both
  identifiers convert to finite numbers, \<open>localeCompare\<close> of the strings otherwise)
  whenever that function is a consistent comparator on those records; and it is
  ascending by numeric identifier when all of them convert to finite numbers.
\<close>

theorem servicesInCategory_sorted:
  "(normalizeCategory sel = [] \<longrightarrow> servicesInCategory h svcs sel = []) \<and>
   (normalizeCategory sel \<noteq> [] \<longrightarrow>
      mset (servicesInCategory h svcs sel) =
        mset (filter (\<lambda>s. normalizeCategory (category s) = normalizeCategory sel) svcs) \<and>
      (consistentOn (compareServices h) {s \<in> set svcs. normalizeCategory (category s) = normalizeCategory sel} \<longrightarrow>
         sorted_wrt (\<lambda>a b. compareServices h a b \<le> 0) (servicesInCategory h svcs sel)) \<and>
      ((\<forall>s\<in>set svcs. normalizeCategory (category s) = normalizeCategory sel \<longrightarrow>
            isFinite (toNumber h (provider_service_id s))) \<longrightarrow>
         sorted_wrt (\<lambda>a b. num_le (toNumber h (provider_service_id a)) (toNumber h (provider_service_id b)))
           (servicesInCategory h svcs sel)))"
proof (intro conjI impI)
  show "servicesInCategory h svcs sel = []" if "normalizeCategory sel = []"
    using that by (simp add: servicesInCategory_def)
next
  assume ne: "normalizeCategory sel \<noteq> []"
  let ?m = "filter (\<lambda>s. normalizeCategory (category s) = normalizeCategory sel) svcs"
  have eq: "servicesInCategory h svcs sel = sort_by (compareServices h) ?m"
    using ne by (simp add: servicesInCategory_def)
  show "mset (servicesInCategory h svcs sel) = mset ?m"
    by (simp add: eq mset_sort_by)
  have set_m: "set ?m = {s \<in> set svcs. normalizeCategory (category s) = normalizeCategory sel}"
    by auto
  show "sorted_wrt (\<lambda>a b. compareServices h a b \<le> 0) (servicesInCategory h svcs sel)"
    if "consistentOn (compareServices h) {s \<in> set svcs. normalizeCategory (category s) = normalizeCategory sel}"
    using that unfolding eq set_m [symmetric] by (rule sorted_sort_by)
  assume fin: "\<forall>s\<in>set svcs. normalizeCategory (category s) = normalizeCategory sel \<longrightarrow>
            isFinite (toNumber h (provider_service_id s))"
  then have "\<forall>s\<in>set ?m. isFinite (toNumber h (provider_service_id s))"
    by simp
  then have "consistentOn (compareServices h) (set ?m)"
    by (rule numeric_consistent)
  then have "sorted_wrt (\<lambda>a b. compareServices h a b \<le> 0) (sort_by (compareServices h) ?m)"
    by (rule sorted_sort_by)
  moreover have "num_le (toNumber h (provider_service_id a)) (toNumber h (provider_service_id b))"
    if "a \<in> set (sort_by (compareServices h) ?m)" "b \<in> set (sort_by (compareServices h) ?m)"
      "compareServices h a b \<le> 0" for a b
  proof -
    from that(1,2) fin have "isFinite (toNumber h (provider_service_id a))" "isFinite (toNumber h (provider_service_id b))"
      by (simp_all add: set_sort_by)
    then obtain av bv where "toNumber h (provider_service_id a) = Fin av" "toNumber h (provider_service_id b) = Fin bv"
      by (cases "toNumber h (provider_service_id a)"; cases "toNumber h (provider_service_id b)") auto
    with that(3) show ?thesis
      by (simp add: compareServices_numeric num_le_def)
  qed
  ultimately show "sorted_wrt (\<lambda>a b. num_le (toNumber h (provider_service_id a)) (toNumber h (provider_service_id b)))
           (servicesInCategory h svcs sel)"
    unfolding eq by (rule sorted_wrt_mono_rel [rotated]) auto
qed

text \<open>
  In the sample catalog the rows of category \<open>A\<close> are 12 and "7" (written " A "); both
  identifiers are finite numbers, and the list is "7", 12.
\<close>

theorem servicesInCategory_sorted_witness:
  "normalizeCategory (Str (ascii ''A'')) \<noteq> [] \<and>
   filter (\<lambda>s. normalizeCategory (category s) = normalizeCategory (Str (ascii ''A''))) mixedCatalog =
     [row (Num (Fin 12)) (Str (ascii ''A'')) Null Null, row (Str (ascii ''7'')) (Str (ascii '' A '')) Null Null] \<and>
   isFinite (toNumber sampleHost (Num (Fin 12))) \<and> isFinite (toNumber sampleHost (Str (ascii ''7''))) \<and>
   servicesInCategory sampleHost mixedCatalog (Str (ascii ''A'')) =
     [row (Str (ascii ''7'')) (Str (ascii '' A '')) Null Null, row (Num (Fin 12)) (Str (ascii ''A'')) Null Null] \<and>
   mset (servicesInCategory sampleHost mixedCatalog (Str (ascii ''A''))) =
     mset [row (Num (Fin 12)) (Str (ascii ''A'')) Null Null, row (Str (ascii ''7'')) (Str (ascii '' A '')) Null Null] \<and>
   sorted_wrt (\<lambda>a b. num_le (toNumber sampleHost (provider_service_id a)) (toNumber sampleHost (provider_service_id b)))
     (servicesInCategory sampleHost mixedCatalog (Str (ascii ''A'')))"
proof -
  have ne: "normalizeCategory (Str (ascii ''A'')) \<noteq> []"
    by (simp add: sample_categories) (simp add: ascii_def)
  have ab: "ascii ''B'' \<noteq> ascii ''A''" "ascii ''A'' \<noteq> []"
    by (simp_all add: ascii_def)
  have m: "filter (\<lambda>s. normalizeCategory (category s) = normalizeCategory (Str (ascii ''A''))) mixedCatalog =
     [row (Num (Fin 12)) (Str (ascii ''A'')) Null Null, row (Str (ascii ''7'')) (Str (ascii '' A '')) Null Null]"
    using ab by (simp add: mixedCatalog_def row_def sample_categories)
  have f: "isFinite (toNumber sampleHost (Num (Fin 12)))" "isFinite (toNumber sampleHost (Str (ascii ''7'')))"
    by (simp_all add: sample_numbers)
  have fin: "\<forall>s\<in>set mixedCatalog. normalizeCategory (category s) = normalizeCategory (Str (ascii ''A'')) \<longrightarrow>
      isFinite (toNumber sampleHost (provider_service_id s))"
    using ab by (simp add: mixedCatalog_def row_def sample_categories sample_numbers)
  have v: "servicesInCategory sampleHost mixedCatalog (Str (ascii ''A'')) =
     [row (Str (ascii ''7'')) (Str (ascii '' A '')) Null Null, row (Num (Fin 12)) (Str (ascii ''A'')) Null Null]"
    using ne by (simp add: servicesInCategory_def m compareServices_def row_def sample_numbers)
  from servicesInCategory_sorted [of "Str (ascii ''A'')" sampleHost mixedCatalog] ne fin
  have "mset (servicesInCategory sampleHost mixedCatalog (Str (ascii ''A''))) =
        mset (filter (\<lambda>s. normalizeCategory (category s) = normalizeCategory (Str (ascii ''A''))) mixedCatalog)"
    and "sorted_wrt (\<lambda>a b. num_le (toNumber sampleHost (provider_service_id a)) (toNumber sampleHost (provider_service_id b)))
     (servicesInCategory sampleHost mixedCatalog (Str (ascii ''A'')))"
    by blast+
  with ne m f v show ?thesis
    by simp
qed

text \<open>
  With nothing selected (the empty string), a record whose category is empty has the
  normalized category of the selection, and the list does not hold it: line 160
  returns the empty list.
\<close>

theorem empty_key_counterexample:
  "normalizeCategory (category (row (Num (Fin 1)) (Str []) Null Null)) = normalizeCategory (Str []) \<and>
   servicesInCategory sampleHost [row (Num (Fin 1)) (Str []) Null Null] (Str []) = []"
  by (simp add: servicesInCategory_def row_def sample_categories)

section \<open>The order of the category list\<close>

text \<open>The list of first occurrences: the same elements, each once, and filtering commutes.\<close>

lemma set_firstOccurrences: "set (firstOccurrences xs) = set xs"
  by (induction xs rule: firstOccurrences.induct) auto

lemma distinct_firstOccurrences: "distinct (firstOccurrences xs)"
  by (induction xs rule: firstOccurrences.induct) (auto simp: set_firstOccurrences)

lemma firstOccurrences_filter: "firstOccurrences (filter P xs) = filter P (firstOccurrences xs)"
proof (induction xs rule: firstOccurrences.induct)
  case 1
  then show ?case by simp
next
  case (2 x xs)
  have swap: "filter P (filter (\<lambda>y. y \<noteq> x) xs) = filter (\<lambda>y. y \<noteq> x) (filter P xs)"
    by (simp add: conj_commute)
  show ?case
  proof (cases "P x")
    case True
    with 2 swap show ?thesis by simp
  next
    case False
    have "filter P (filter (\<lambda>y. y \<noteq> x) xs) = filter P xs"
      using False by (auto intro: filter_cong)
    with 2 False show ?thesis by simp
  qed
qed

text \<open>
  The loop appends to \<open>out\<close> the first occurrences of the non-empty normalized
  categories that are not in \<open>seen\<close>.
\<close>

lemma categories_loop_keys:
  "map key (categories_loop svcs seen out) =
     map key out @ firstOccurrences (filter (\<lambda>c. c \<noteq> [] \<and> c \<notin> seen)
                                      (map (\<lambda>s. normalizeCategory (category s)) svcs))"
proof (induction svcs arbitrary: seen out)
  case Nil
  then show ?case by simp
next
  case (Cons s rest)
  let ?c = "normalizeCategory (category s)"
  have "filter (\<lambda>y. y \<noteq> ?c) (filter (\<lambda>c. c \<noteq> [] \<and> c \<notin> seen) xs) =
        filter (\<lambda>c. c \<noteq> [] \<and> c \<notin> insert ?c seen) xs" for xs
    by (auto intro: filter_cong)
  with Cons show ?case
    by (simp add: Let_def)
qed

lemma categories_keys:
  "map key (categories svcs) =
     firstOccurrences (filter (\<lambda>c. c \<noteq> []) (map (\<lambda>s. normalizeCategory (category s)) svcs))"
  by (simp add: categories_def categories_loop_keys)

lemma categories_keys_Cons:
  "map key (categories (s # rest)) =
     (if normalizeCategory (category s) = [] then map key (categories rest)
      else normalizeCategory (category s) #
           filter (\<lambda>k. k \<noteq> normalizeCategory (category s)) (map key (categories rest)))"
  by (simp add: categories_keys firstOccurrences_filter)

lemma categories_keys_nonempty: "k \<in> set (map key (categories svcs)) \<Longrightarrow> k \<noteq> []"
  by (simp add: categories_keys set_firstOccurrences)

text \<open>The keys stand in the order of the first record of each.\<close>

lemma firstIndex_Cons:
  "firstIndex (s # rest) k = (if normalizeCategory (category s) = k then 0 else Suc (firstIndex rest k))"
  by (simp add: firstIndex_def)

lemma keys_by_firstIndex:
  "sorted_wrt (\<lambda>k1 k2. firstIndex svcs k1 < firstIndex svcs k2) (map key (categories svcs))"
proof (induction svcs)
  case Nil
  then show ?case by (simp add: categories_def)
next
  case (Cons s rest)
  let ?c = "normalizeCategory (category s)"
  let ?ks = "map key (categories rest)"
  show ?case
  proof (cases "?c = []")
    case True
    have "sorted_wrt (\<lambda>k1 k2. firstIndex (s # rest) k1 < firstIndex (s # rest) k2) ?ks"
      using Cons.IH
    proof (rule sorted_wrt_mono_rel [rotated])
      fix k1 k2 assume "k1 \<in> set ?ks" "k2 \<in> set ?ks" "firstIndex rest k1 < firstIndex rest k2"
      with True categories_keys_nonempty [of _ rest] show "firstIndex (s # rest) k1 < firstIndex (s # rest) k2"
        by (auto simp: firstIndex_Cons)
    qed
    with True show ?thesis
      by (simp add: categories_keys_Cons)
  next
    case False
    have "sorted_wrt (\<lambda>k1 k2. firstIndex rest k1 < firstIndex rest k2) (filter (\<lambda>k. k \<noteq> ?c) ?ks)"
      using Cons.IH by (rule sorted_wrt_filter)
    then have "sorted_wrt (\<lambda>k1 k2. firstIndex (s # rest) k1 < firstIndex (s # rest) k2) (filter (\<lambda>k. k \<noteq> ?c) ?ks)"
    proof (rule sorted_wrt_mono_rel [rotated])
      fix k1 k2 assume "k1 \<in> set (filter (\<lambda>k. k \<noteq> ?c) ?ks)" "k2 \<in> set (filter (\<lambda>k. k \<noteq> ?c) ?ks)"
        "firstIndex rest k1 < firstIndex rest k2"
      then show "firstIndex (s # rest) k1 < firstIndex (s # rest) k2"
        by (auto simp: firstIndex_Cons)
    qed
    moreover have "firstIndex (s # rest) ?c < firstIndex (s # rest) k" if "k \<in> set (filter (\<lambda>k. k \<noteq> ?c) ?ks)" for k
      using that by (auto simp: firstIndex_Cons)
    ultimately show ?thesis
      using False by (simp add: categories_keys_Cons)
  qed
qed

lemma firstRecord_nth:
  assumes "k \<in> (\<lambda>s. normalizeCategory (category s)) ` set svcs"
  shows "firstIndex svcs k < length svcs \<and> firstRecord svcs k = Some (svcs ! firstIndex svcs k)"
  using assms
proof (induction svcs)
  case Nil
  then show ?case by simp
next
  case (Cons s rest)
  then show ?case
    by (cases "normalizeCategory (category s) = k") (auto simp: firstIndex_Cons firstRecord_def)
qed

lemma takeWhile_before:
  "j < length (takeWhile P xs) \<Longrightarrow> P (xs ! j)"
  by (metis nth_mem set_takeWhileD takeWhile_nth)

lemma later_records:
  assumes "s \<in> set svcs" "normalizeCategory (category s) = k"
  shows "\<exists>j. firstIndex svcs k \<le> j \<and> j < length svcs \<and> svcs ! j = s"
proof -
  from assms(1) obtain j where j: "j < length svcs" "svcs ! j = s"
    by (auto simp: in_set_conv_nth)
  have "firstIndex svcs k \<le> j"
  proof (rule ccontr)
    assume "\<not> firstIndex svcs k \<le> j"
    then have "j < length (takeWhile (\<lambda>s. normalizeCategory (category s) \<noteq> k) svcs)"
      by (simp add: firstIndex_def)
    then have "normalizeCategory (category (svcs ! j)) \<noteq> k"
      by (rule takeWhile_before)
    with j assms(2) show False by simp
  qed
  with j show ?thesis by blast
qed

text \<open>
  C5. For every catalog, the keys of the category list are pairwise distinct; they are
  the normalized categories of the records except the empty one; they are the first
  occurrences, in order, of the non-empty normalized categories of the records, so they
  stand in the order of the first record of each. When the catalog is in ascending
  order of its identifiers (under any relation \<open>le\<close> on identifiers), the first record
  of each listed category has the least identifier of the category, and the keys stand
  in ascending order of those least identifiers.
\<close>

theorem categories_order:
  "distinct (map key (categories svcs)) \<and>
   set (map key (categories svcs)) = (\<lambda>s. normalizeCategory (category s)) ` set svcs - {[]} \<and>
   map key (categories svcs) =
     firstOccurrences (filter (\<lambda>c. c \<noteq> []) (map (\<lambda>s. normalizeCategory (category s)) svcs)) \<and>
   sorted_wrt (\<lambda>k1 k2. firstIndex svcs k1 < firstIndex svcs k2) (map key (categories svcs)) \<and>
   (sorted_wrt (\<lambda>a b. le (provider_service_id a) (provider_service_id b)) svcs \<longrightarrow>
      (\<forall>k\<in>set (map key (categories svcs)). \<exists>r. firstRecord svcs k = Some r \<and>
          (\<forall>s\<in>set svcs. normalizeCategory (category s) = k \<longrightarrow>
              s = r \<or> le (provider_service_id r) (provider_service_id s))) \<and>
      sorted_wrt (\<lambda>k1 k2. \<forall>r1 r2. firstRecord svcs k1 = Some r1 \<and> firstRecord svcs k2 = Some r2 \<longrightarrow>
                     le (provider_service_id r1) (provider_service_id r2))
        (map key (categories svcs)))"
proof (intro conjI impI ballI)
  let ?nc = "\<lambda>s. normalizeCategory (category s)"
  let ?ks = "map key (categories svcs)"
  show "distinct ?ks"
    by (simp only: categories_keys distinct_firstOccurrences)
  show set_ks: "set ?ks = ?nc ` set svcs - {[]}"
    by (simp only: categories_keys set_firstOccurrences) auto
  show "?ks = firstOccurrences (filter (\<lambda>c. c \<noteq> []) (map ?nc svcs))"
    by (rule categories_keys)
  show "sorted_wrt (\<lambda>k1 k2. firstIndex svcs k1 < firstIndex svcs k2) ?ks"
    by (rule keys_by_firstIndex)
  assume asc: "sorted_wrt (\<lambda>a b. le (provider_service_id a) (provider_service_id b)) svcs"
  have first: "firstIndex svcs k < length svcs \<and> firstRecord svcs k = Some (svcs ! firstIndex svcs k)"
    if "k \<in> set ?ks" for k
    using that set_ks by (intro firstRecord_nth) blast
  show "\<exists>r. firstRecord svcs k = Some r \<and>
          (\<forall>s\<in>set svcs. ?nc s = k \<longrightarrow> s = r \<or> le (provider_service_id r) (provider_service_id s))"
    if k: "k \<in> set ?ks" for k
  proof (intro exI conjI ballI impI)
    show "firstRecord svcs k = Some (svcs ! firstIndex svcs k)"
      using first [OF k] by simp
    fix s assume "s \<in> set svcs" "?nc s = k"
    then obtain j where j: "firstIndex svcs k \<le> j" "j < length svcs" "svcs ! j = s"
      using later_records by blast
    show "s = svcs ! firstIndex svcs k \<or>
          le (provider_service_id (svcs ! firstIndex svcs k)) (provider_service_id s)"
    proof (cases "firstIndex svcs k = j")
      case True
      with j show ?thesis by simp
    next
      case False
      with j have "firstIndex svcs k < j" by simp
      from sorted_wrt_nth_less [OF asc this j(2)] j(3) show ?thesis by simp
    qed
  qed
  show "sorted_wrt (\<lambda>k1 k2. \<forall>r1 r2. firstRecord svcs k1 = Some r1 \<and> firstRecord svcs k2 = Some r2 \<longrightarrow>
                     le (provider_service_id r1) (provider_service_id r2)) ?ks"
    using keys_by_firstIndex [of svcs]
  proof (rule sorted_wrt_mono_rel [rotated])
    fix k1 k2 assume k: "k1 \<in> set ?ks" "k2 \<in> set ?ks" and lt: "firstIndex svcs k1 < firstIndex svcs k2"
    from sorted_wrt_nth_less [OF asc lt] first [OF k(2)]
    have "le (provider_service_id (svcs ! firstIndex svcs k1)) (provider_service_id (svcs ! firstIndex svcs k2))"
      by simp
    with first [OF k(1)] first [OF k(2)]
    show "\<forall>r1 r2. firstRecord svcs k1 = Some r1 \<and> firstRecord svcs k2 = Some r2 \<longrightarrow>
                     le (provider_service_id r1) (provider_service_id r2)"
      by simp
  qed
qed

text \<open>
  The sample catalog is ascending; its category list is \<open>A\<close>, \<open>B\<close>, whose first
  records are 1 and 2: 1 is below 2, and below 3, the other record of \<open>A\<close>, and 2 is
  below 5, the other record of \<open>B\<close>.
\<close>

theorem categories_order_witness:
  "sorted_wrt (\<lambda>a b. numericOrder (provider_service_id a) (provider_service_id b)) sortedCatalog \<and>
   map key (categories sortedCatalog) = [ascii ''A'', ascii ''B''] \<and>
   firstRecord sortedCatalog (ascii ''A'') = Some (row (Num (Fin 1)) (Str (ascii '' A '')) Null Null) \<and>
   firstRecord sortedCatalog (ascii ''B'') = Some (row (Num (Fin 2)) (Str (ascii ''B'')) Null Null) \<and>
   numericOrder (Num (Fin 1)) (Num (Fin 2)) \<and> numericOrder (Num (Fin 1)) (Num (Fin 3)) \<and>
   numericOrder (Num (Fin 2)) (Num (Fin 5))"
proof -
  have ab: "ascii ''B'' \<noteq> ascii ''A''" "ascii ''A'' \<noteq> []" "ascii ''B'' \<noteq> []"
    by (simp_all add: ascii_def)
  have asc: "sorted_wrt (\<lambda>a b. numericOrder (provider_service_id a) (provider_service_id b)) sortedCatalog"
    by (simp add: sortedCatalog_def row_def numericOrder_def num_simps)
  have ks: "map key (categories sortedCatalog) = [ascii ''A'', ascii ''B'']"
    using ab by (simp add: categories_def sortedCatalog_def row_def sample_categories Let_def)
  have fr: "firstRecord sortedCatalog (ascii ''A'') = Some (row (Num (Fin 1)) (Str (ascii '' A '')) Null Null)"
    "firstRecord sortedCatalog (ascii ''B'') = Some (row (Num (Fin 2)) (Str (ascii ''B'')) Null Null)"
    using ab by (simp_all add: firstRecord_def sortedCatalog_def row_def sample_categories)
  have mem: "row (Num (Fin 3)) (Str (ascii ''A'')) Null Null \<in> set sortedCatalog"
    "row (Num (Fin 5)) (Str (ascii ''B'')) Null Null \<in> set sortedCatalog"
    by (simp_all add: sortedCatalog_def)
  note t = categories_order [of sortedCatalog numericOrder, unfolded ks]
  from t asc fr have "numericOrder (Num (Fin 1)) (Num (Fin 2))"
    by (simp add: row_def)
  moreover from t asc fr mem(1) have "numericOrder (Num (Fin 1)) (Num (Fin 3))"
    by (auto simp: row_def sample_categories)
  moreover from t asc fr mem(2) have "numericOrder (Num (Fin 2)) (Num (Fin 5))"
    by (auto simp: row_def sample_categories)
  ultimately show ?thesis
    using asc ks fr by simp
qed

section \<open>Samples for the bounds and the labels\<close>

text \<open>
  The one entry of a catalog whose only category is written " A " has the label "A",
  its key.
\<close>

theorem label_is_key_witness:
  "\<lparr>key = ascii ''A'', label = ascii ''A'', badge = ascii ''A''\<rparr>
     \<in> set (categories [row (Num (Fin 1)) (Str (ascii '' A '')) Null Null]) \<and>
   label \<lparr>key = ascii ''A'', label = ascii ''A'', badge = ascii ''A''\<rparr> = ascii ''A''"
proof -
  have "categories [row (Num (Fin 1)) (Str (ascii '' A '')) Null Null] =
     [\<lparr>key = ascii ''A'', label = ascii ''A'', badge = ascii ''A''\<rparr>]"
    by (simp add: categories_def row_def normalizeCategory_def trim_def ascii_def isWhiteSpace_def
        extractCategoryBadge_def Let_def)
  then have m: "\<lparr>key = ascii ''A'', label = ascii ''A'', badge = ascii ''A''\<rparr>
     \<in> set (categories [row (Num (Fin 1)) (Str (ascii '' A '')) Null Null])"
    by simp
  from label_is_key [OF m] m show ?thesis
    by simp
qed

text \<open>
  With \<open>min\<close> undefined and \<open>max\<close> the string "1a", neither a finite number, a
  selection that passes rules 1 to 6 passes the validator.
\<close>

theorem bounds_disabled_witness:
  "firstViolation (take 6 (rules sampleHost (filled Undefined (Str (ascii ''1a'')) (Fin 5)))) = NoMessage \<and>
   \<not> isFinite (toNumber sampleHost Undefined) \<and>
   \<not> isFinite (toNumber sampleHost (Str (ascii ''1a''))) \<and>
   validateBeforeSubmit sampleHost (filled Undefined (Str (ascii ''1a'')) (Fin 5)) = NoMessage"
proof -
  let ?st = "filled Undefined (Str (ascii ''1a'')) (Fin 5)"
  have six: "firstViolation (take 6 (rules sampleHost ?st)) = NoMessage"
    by (simp add: rules_def Let_def filled_service)
       (simp add: filled_def trim_def ascii_def isWhiteSpace_def num_simps)
  have nf: "\<not> isFinite (toNumber sampleHost Undefined)" "\<not> isFinite (toNumber sampleHost (Str (ascii ''1a'')))"
    by (simp_all add: sample_numbers)
  from bounds_disabled [OF six filled_service] nf six show ?thesis
    by (simp add: row_def)
qed

text \<open>With \<open>max\<close> \<open>null\<close> the filled selection does not pass.\<close>

theorem null_max_never_passes_witness:
  "svc_max (row (Num (Fin 7)) (Str (ascii ''A'')) Null Null) = Null \<and>
   validateBeforeSubmit sampleHost (filled Null Null (Fin 5)) \<noteq> NoMessage"
proof -
  have n: "svc_max (row (Num (Fin 7)) (Str (ascii ''A'')) Null Null) = Null"
    by (simp add: row_def)
  from null_max_never_passes [OF filled_service n] n show ?thesis
    by simp
qed

text \<open>
  With \<open>min\<close> 10 and \<open>max\<close> undefined \<open>Number\<close> agrees with both declarations, and
  quantity 5 violates rule 7 first: the minimum message, with 10.
\<close>

theorem validate_refines_witness:
  "coercionAgrees sampleHost (Num (Fin 10)) \<and> coercionAgrees sampleHost Undefined \<and>
   firstViolation (rules sampleHost (filled (Num (Fin 10)) Undefined (Fin 5))) = MinQuantity (Fin 10) \<and>
   validateBeforeSubmit sampleHost (filled (Num (Fin 10)) Undefined (Fin 5)) = MinQuantity (Fin 10)"
proof -
  let ?st = "filled (Num (Fin 10)) Undefined (Fin 5)"
  have ag: "coercionAgrees sampleHost (Num (Fin 10))" "coercionAgrees sampleHost Undefined"
    by (simp_all add: coercionAgrees_def)
  have r: "firstViolation (rules sampleHost ?st) = MinQuantity (Fin 10)"
    by (simp add: rules_def Let_def filled_service)
       (simp add: row_def filled_def trim_def ascii_def isWhiteSpace_def num_simps)
  have "validateBeforeSubmit sampleHost ?st = firstViolation (rules sampleHost ?st)"
    by (rule validate_refines) (use ag in \<open>simp add: filled_service row_def\<close>)
  with ag r show ?thesis by simp
qed

text \<open>
  A selection with category and service chosen, an empty link and quantity 0 violates
  rules 3 and 6 and satisfies rules 1 and 2: the message is the link message.
\<close>

theorem link_message_first_witness:
  "rule 3 sampleHost ((filled Undefined Undefined (Fin 0))\<lparr>link := Str []\<rparr>) \<noteq> None \<and>
   rule 6 sampleHost ((filled Undefined Undefined (Fin 0))\<lparr>link := Str []\<rparr>) \<noteq> None \<and>
   rule 1 sampleHost ((filled Undefined Undefined (Fin 0))\<lparr>link := Str []\<rparr>) = None \<and>
   rule 2 sampleHost ((filled Undefined Undefined (Fin 0))\<lparr>link := Str []\<rparr>) = None \<and>
   validateBeforeSubmit sampleHost ((filled Undefined Undefined (Fin 0))\<lparr>link := Str []\<rparr>) = EnterLink"
proof -
  let ?s = "(filled Undefined Undefined (Fin 0))\<lparr>link := Str []\<rparr>"
  have sel: "selectedService sampleHost (services ?s) (selectedServiceId ?s) \<noteq> None"
    by (simp add: filled_def initialState_def row_def selectedService_def ascii_def decimal.simps)
  have r: "rule 3 sampleHost ?s \<noteq> None" "rule 6 sampleHost ?s \<noteq> None"
      "rule 1 sampleHost ?s = None" "rule 2 sampleHost ?s = None"
    using sel
    by (simp_all add: rule_def rules_def Let_def violated_def filled_def initialState_def
        trim_def ascii_def num_gt_def)
  with link_message_first [of sampleHost ?s] show ?thesis
    by blast
qed

end
